theory Spec2Isabelle
  imports Main "HOL-Library.Char_ord" "HOL-Library.List_Lexorder"
begin

section \<open>Python strings\<close>

text \<open>
  A Python \<open>str\<close> is modelled as a \<open>string\<close>, one \<open>char\<close> per character, so that
  \<open>len\<close> is \<open>length\<close>. The box-drawing characters and the package emoji of the tree
  view lie outside the range of \<open>char\<close>; they are written as their UTF-8 bytes (the tree
  builder never measures them). \<open>sorted\<close> on names is the lexicographic order on
  \<open>char list\<close>, which agrees with Python's code-point order on UTF-8 text.
  \<open>str.lower\<close> is modelled on the ASCII letters; other characters keep their case.
  Paths follow \<open>posixpath\<close>.
\<close>

fun py_join :: "string \<Rightarrow> string list \<Rightarrow> string" where
  "py_join sep [] = []"
| "py_join sep [x] = x"
| "py_join sep (x # y # ys) = x @ sep @ py_join sep (y # ys)"

fun py_split :: "char \<Rightarrow> string \<Rightarrow> string list" where
  "py_split c [] = [[]]"
| "py_split c (x # xs) =
     (if x = c then [] # py_split c xs
      else (case py_split c xs of [] \<Rightarrow> [[x]] | w # ws \<Rightarrow> (x # w) # ws))"

definition NL :: char where
  "NL = CHR 0x0A"

definition lower_char :: "char \<Rightarrow> char" where
  "lower_char c =
     (case map_of (zip ''ABCDEFGHIJKLMNOPQRSTUVWXYZ'' ''abcdefghijklmnopqrstuvwxyz'') c of
        Some l \<Rightarrow> l | None \<Rightarrow> c)"

definition py_lower :: "string \<Rightarrow> string" where
  "py_lower s = map lower_char s"

definition startswith :: "string \<Rightarrow> string \<Rightarrow> bool" where
  "startswith s p = (take (length p) s = p)"

definition endswith :: "string \<Rightarrow> string \<Rightarrow> bool" where
  "endswith s p = (length p \<le> length s \<and> drop (length s - length p) s = p)"

definition digit_char :: "nat \<Rightarrow> char" where
  "digit_char d = ''0123456789'' ! d"

function show_nat :: "nat \<Rightarrow> string" where
  "show_nat n = (if n < 10 then [digit_char n] else show_nat (n div 10) @ [digit_char (n mod 10)])"
  by pat_completeness auto
termination
  by (relation "measure id") auto

declare show_nat.simps [simp del]

definition show_int :: "int \<Rightarrow> string" where
  "show_int i = (if i < 0 then CHR ''-'' # show_nat (nat (- i)) else show_nat (nat i))"

text \<open>\<open>os.path.basename\<close>: what follows the last slash.\<close>

definition basename :: "string \<Rightarrow> string" where
  "basename p = rev (takeWhile (\<lambda>c. c \<noteq> CHR ''/'') (rev p))"

text \<open>
  The second component of \<open>os.path.splitext\<close>: the text from the last dot of the base
  name on, unless only dots precede that dot.
\<close>

definition splitext_ext :: "string \<Rightarrow> string" where
  "splitext_ext p =
     (let base = basename p in
      if CHR ''.'' \<notin> set base then []
      else
        (let stem = rev (tl (dropWhile (\<lambda>c. c \<noteq> CHR ''.'') (rev base)));
             ext = CHR ''.'' # rev (takeWhile (\<lambda>c. c \<noteq> CHR ''.'') (rev base))
         in if \<forall>c \<in> set stem. c = CHR ''.'' then [] else ext))"

section \<open>Configuration\<close>

definition OUTPUT_FILE :: string where
  "OUTPUT_FILE = ''directory_info.txt''"

definition SEPARATOR :: string where
  "SEPARATOR = [NL] @ replicate 80 (CHR ''='') @ [NL]"

definition MAX_FILES_PER_DIR :: nat where
  "MAX_FILES_PER_DIR = 30"

definition MAX_FILE_SIZE_FULL :: nat where
  "MAX_FILE_SIZE_FULL = 20000"

definition MAX_FILE_SIZE_PARTIAL :: nat where
  "MAX_FILE_SIZE_PARTIAL = 200000"

definition MAX_LINES_PREVIEW :: nat where
  "MAX_LINES_PREVIEW = 100"

definition ESTIMATED_CHARS_PER_TOKEN :: nat where
  "ESTIMATED_CHARS_PER_TOKEN = 4"

section \<open>Utility functions\<close>

definition estimate_tokens :: "string \<Rightarrow> nat" where
  "estimate_tokens text = length text div ESTIMATED_CHARS_PER_TOKEN"

text \<open>
  \<open>format_size\<close> divides by 1024 in floating point and prints one decimal. Division of
  an integer below \<open>2 ^ 53\<close> by a power of two is exact, and \<open>.1f\<close> rounds the exact
  value to the nearest tenth, ties to even; so the value is kept as the fraction
  \<open>n / d\<close> and rounded in integer arithmetic.
\<close>

definition round_half_even :: "nat \<Rightarrow> nat \<Rightarrow> nat" where
  "round_half_even a d =
     (let q = a div d; r = a mod d in
      if 2 * r < d then q
      else if 2 * r > d then q + 1
      else if even q then q else q + 1)"

definition fmt1 :: "nat \<Rightarrow> nat \<Rightarrow> string" where
  "fmt1 n d = (let t = round_half_even (10 * n) d in
               show_nat (t div 10) @ ''.'' @ [digit_char (t mod 10)])"

fun format_size_loop :: "string list \<Rightarrow> nat \<Rightarrow> nat \<Rightarrow> string" where
  "format_size_loop [] n d = fmt1 n d @ ''TB''"
| "format_size_loop (unit # units) n d =
     (if n < 1024 * d
      then (if unit \<noteq> ''B'' then fmt1 n d @ unit else show_nat n @ unit)
      else format_size_loop units n (d * 1024))"

definition format_size :: "nat \<Rightarrow> string" where
  "format_size size_bytes = format_size_loop [''B'', ''KB'', ''MB'', ''GB''] size_bytes 1"

section \<open>JSON values and \<open>repr\<close>\<close>

text \<open>
  The values \<open>json.load\<close> returns. A dict is its list of items in insertion order (the
  keys are distinct). A float is carried as the text \<open>repr\<close> prints for it, the only
  thing this program does with one.
\<close>

datatype json =
    JNull
  | JBool bool
  | JInt int
  | JFloat string
  | JStr string
  | JList "json list"
  | JDict "(string \<times> json) list"

definition SQ :: char where
  "SQ = CHR 0x27"

definition DQ :: char where
  "DQ = CHR 0x22"

definition BSL :: char where
  "BSL = CHR 0x5C"

definition hex_digit :: "nat \<Rightarrow> char" where
  "hex_digit d = ''0123456789abcdef'' ! d"

definition repr_char :: "char \<Rightarrow> char \<Rightarrow> string" where
  "repr_char q c =
     (let n = (of_char c :: nat) in
      if c = q \<or> c = BSL then [BSL, c]
      else if n = 9 then [BSL, CHR ''t'']
      else if n = 10 then [BSL, CHR ''n'']
      else if n = 13 then [BSL, CHR ''r'']
      else if n < 32 \<or> (127 \<le> n \<and> n \<le> 160) \<or> n = 173
           then [BSL, CHR ''x'', hex_digit (n div 16), hex_digit (n mod 16)]
      else [c])"

definition repr_str :: "string \<Rightarrow> string" where
  "repr_str s =
     (let q = (if SQ \<in> set s \<and> DQ \<notin> set s then DQ else SQ)
      in [q] @ concat (map (repr_char q) s) @ [q])"

fun py_repr :: "json \<Rightarrow> string" where
  "py_repr JNull = ''None''"
| "py_repr (JBool b) = (if b then ''True'' else ''False'')"
| "py_repr (JInt i) = show_int i"
| "py_repr (JFloat r) = r"
| "py_repr (JStr s) = repr_str s"
| "py_repr (JList xs) = ''['' @ py_join '', '' (map py_repr xs) @ '']''"
| "py_repr (JDict kvs) =
     ''{'' @ py_join '', '' (map (\<lambda>kv. repr_str (fst kv) @ '': '' @ py_repr (snd kv)) kvs) @ ''}''"

fun is_dict :: "json \<Rightarrow> bool" where
  "is_dict (JDict _) = True"
| "is_dict _ = False"

fun is_list :: "json \<Rightarrow> bool" where
  "is_list (JList _) = True"
| "is_list _ = False"

text \<open>\<open>isinstance(x, (str, int, float, bool, type(None)))\<close>\<close>

definition is_scalar :: "json \<Rightarrow> bool" where
  "is_scalar x = (\<not> is_dict x \<and> \<not> is_list x)"

section \<open>Bounded summary of a JSON value\<close>

lemma json_item_size:
  "kv \<in> set kvs \<Longrightarrow> size (snd kv) < Suc (size_list (size_prod (\<lambda>_. 0) size) kvs)"
  by (induction kvs) auto

lemma json_elem_size:
  "x \<in> set xs \<Longrightarrow> size x < Suc (size_list size xs)"
  by (induction xs) auto

function summarize_json_structure ::
  "json \<Rightarrow> nat \<Rightarrow> nat \<Rightarrow> nat \<Rightarrow> string \<Rightarrow> string" where
  "summarize_json_structure data max_depth current_depth max_items indent =
     (if current_depth \<ge> max_depth then
        (case data of
           JDict kvs \<Rightarrow> ''{...} ('' @ show_nat (length kvs) @ '' keys)''
         | JList xs \<Rightarrow> ''[...] ('' @ show_nat (length xs) @ '' items)''
         | _ \<Rightarrow> take 50 (py_repr data))
      else
        (let next_indent = indent @ ''  '' in
         case data of
           JDict kvs \<Rightarrow>
             if kvs = [] then ''{}''
             else
               (let lines0 = [''{''];
                    items = take max_items kvs;
                    lines1 = fold (\<lambda>kv lines.
                               lines @ [next_indent @ [DQ] @ fst kv @ [DQ] @ '': '' @
                                 summarize_json_structure (snd kv) max_depth
                                   (current_depth + 1) max_items next_indent @ '','']) items lines0;
                    lines2 = (if length kvs > max_items
                              then lines1 @ [next_indent @ ''... +'' @
                                     show_nat (length kvs - max_items) @ '' more keys'']
                              else lines1);
                    lines3 = lines2 @ [indent @ ''}'']
                in py_join [NL] lines3)
         | JList xs \<Rightarrow>
             if xs = [] then ''[]''
             else if length xs \<le> 3 \<and> (\<forall>x \<in> set xs. is_scalar x) then py_repr data
             else
               (let lines0 = [''[ // '' @ show_nat (length xs) @ '' items''];
                    lines1 = fold (\<lambda>item lines.
                               lines @ [next_indent @
                                 summarize_json_structure item max_depth
                                   (current_depth + 1) max_items next_indent @ '','']) (take max_items xs) lines0;
                    lines2 = (if length xs > max_items
                              then lines1 @ [next_indent @ ''... +'' @
                                     show_nat (length xs - max_items) @ '' more items'']
                              else lines1);
                    lines3 = lines2 @ [indent @ '']'']
                in py_join [NL] lines3)
         | JStr s \<Rightarrow>
             if length s > 60 then [DQ] @ take 60 s @ ''...'' @ [DQ]
             else py_repr data
         | _ \<Rightarrow> py_repr data))"
  by pat_completeness auto
termination
  apply (relation "measure (\<lambda>(data, _, _, _, _). size data)")
    apply simp
   apply (auto dest!: in_set_takeD dest: json_item_size json_elem_size)
  done

declare summarize_json_structure.simps [simp del]

section \<open>Files\<close>

text \<open>
  What the content extractor sees of one file: its size in bytes (\<open>os.path.getsize\<close>),
  and what opening and reading it as text gives, strictly decoded (used for notebooks)
  and with undecodable bytes replaced (everything else); \<open>Inl\<close> carries the message of
  the exception raised. A path with no file makes \<open>getsize\<close> raise. \<open>json.loads\<close> is
  a parameter: it either raises \<open>JSONDecodeError\<close>, raises something else, or returns
  a value.
\<close>

record file_entry =
  fsize :: nat
  read_strict :: "string + string"
  read_replace :: "string + string"

type_synonym filesystem = "string \<Rightarrow> file_entry option"

datatype load_result = JSONDecodeError string | OtherError string | Loaded json

type_synonym json_loader = "string \<Rightarrow> load_result"

section \<open>Notebook extraction\<close>

fun type_name :: "json \<Rightarrow> string" where
  "type_name JNull = ''NoneType''"
| "type_name (JBool _) = ''bool''"
| "type_name (JInt _) = ''int''"
| "type_name (JFloat _) = ''float''"
| "type_name (JStr _) = ''str''"
| "type_name (JList _) = ''list''"
| "type_name (JDict _) = ''dict''"

text \<open>\<open>x.get(key, default)\<close>, an \<open>AttributeError\<close> unless \<open>x\<close> is a dict.\<close>

fun py_get :: "json \<Rightarrow> string \<Rightarrow> json \<Rightarrow> string + json" where
  "py_get (JDict kvs) key dflt = Inr (case map_of kvs key of Some v \<Rightarrow> v | None \<Rightarrow> dflt)"
| "py_get x key dflt = Inl ([SQ] @ type_name x @ [SQ] @ '' object has no attribute '' @ [SQ] @ ''get'' @ [SQ])"

text \<open>Iterating a value: a dict gives its keys, a string its characters.\<close>

fun py_iter :: "json \<Rightarrow> string + json list" where
  "py_iter (JList xs) = Inr xs"
| "py_iter (JDict kvs) = Inr (map (\<lambda>kv. JStr (fst kv)) kvs)"
| "py_iter (JStr s) = Inr (map (\<lambda>c. JStr [c]) s)"
| "py_iter x = Inl ([SQ] @ type_name x @ [SQ] @ '' object is not iterable'')"

text \<open>\<open>[c for c in cells if c.get('cell_type') == t]\<close>\<close>

fun cells_of_type :: "string \<Rightarrow> json list \<Rightarrow> string + json list" where
  "cells_of_type t [] = Inr []"
| "cells_of_type t (c # cs) =
     (case py_get c ''cell_type'' JNull of
        Inl e \<Rightarrow> Inl e
      | Inr ct \<Rightarrow>
          (case cells_of_type t cs of
             Inl e \<Rightarrow> Inl e
           | Inr r \<Rightarrow> Inr (if ct = JStr t then c # r else r)))"

text \<open>\<open>sep.join(parts)\<close> on a list that may hold values that are not strings.\<close>

fun join_items :: "nat \<Rightarrow> json list \<Rightarrow> string + string list" where
  "join_items i [] = Inr []"
| "join_items i (JStr s # xs) =
     (case join_items (i + 1) xs of Inl e \<Rightarrow> Inl e | Inr r \<Rightarrow> Inr (s # r))"
| "join_items i (x # xs) =
     Inl (''sequence item '' @ show_nat i @ '': expected str instance, '' @ type_name x @ '' found'')"

definition join_values :: "string \<Rightarrow> json list \<Rightarrow> string + string" where
  "join_values sep parts =
     (case join_items 0 parts of Inl e \<Rightarrow> Inl e | Inr strs \<Rightarrow> Inr (py_join sep strs))"

text \<open>
  One round of the loop over the cells: \<open>i\<close> is the index from \<open>enumerate\<close>, the state
  is \<open>content_parts\<close>.
\<close>

definition nb_cell :: "nat \<Rightarrow> json \<Rightarrow> json list \<Rightarrow> string + json list" where
  "nb_cell i cell content_parts =
     (case py_get cell ''cell_type'' (JStr ''unknown'') of
        Inl e \<Rightarrow> Inl e
      | Inr cell_type \<Rightarrow>
     (case py_get cell ''source'' (JList []) of
        Inl e \<Rightarrow> Inl e
      | Inr source0 \<Rightarrow>
     (case (case source0 of
              JList items \<Rightarrow> (case join_values [] items of Inl e \<Rightarrow> Inl e | Inr t \<Rightarrow> Inr (JStr t))
            | _ \<Rightarrow> Inr source0) of
        Inl e \<Rightarrow> Inl e
      | Inr source \<Rightarrow>
          if cell_type = JStr ''code'' then
            Inr (content_parts @
                   [JStr ([NL] @ ''# --- Cell '' @ show_nat (i + 1) @ '' [Code] ---''), source])
          else if cell_type = JStr ''markdown'' then
            (case source of
               JStr text \<Rightarrow>
                 if length text < 500 then
                   Inr (fold (\<lambda>line parts. parts @ [JStr (''# '' @ line)]) (py_split NL text)
                          (content_parts @
                             [JStr ([NL] @ ''# --- Cell '' @ show_nat (i + 1) @ '' [Markdown] ---'')]))
                 else Inr content_parts
             | JDict kvs \<Rightarrow>
                 if length kvs < 500 then
                   Inl ([SQ] @ ''dict'' @ [SQ] @ '' object has no attribute '' @ [SQ] @ ''split'' @ [SQ])
                 else Inr content_parts
             | _ \<Rightarrow> Inl (''object of type '' @ [SQ] @ type_name source @ [SQ] @ '' has no len()''))
          else Inr content_parts)))"

fun nb_loop :: "nat \<Rightarrow> json list \<Rightarrow> json list \<Rightarrow> string + json list" where
  "nb_loop i [] content_parts = Inr content_parts"
| "nb_loop i (cell # cells) content_parts =
     (case nb_cell i cell content_parts of
        Inl e \<Rightarrow> Inl e
      | Inr parts \<Rightarrow> nb_loop (i + 1) cells parts)"

text \<open>The body of the \<open>try\<close> block, after the notebook is loaded.\<close>

definition nb_render :: "json \<Rightarrow> string + string" where
  "nb_render notebook =
     (case py_get notebook ''cells'' (JList []) of
        Inl e \<Rightarrow> Inl e
      | Inr cells_value \<Rightarrow>
     (case py_iter cells_value of
        Inl e \<Rightarrow> Inl e
      | Inr cells \<Rightarrow>
     (case cells_of_type ''code'' cells of
        Inl e \<Rightarrow> Inl e
      | Inr code_cells \<Rightarrow>
     (case cells_of_type ''markdown'' cells of
        Inl e \<Rightarrow> Inl e
      | Inr markdown_cells \<Rightarrow>
     (case nb_loop 0 cells
             [JStr (''# Jupyter Notebook: '' @ show_nat (length code_cells) @ '' code cells, '' @
                    show_nat (length markdown_cells) @ '' markdown cells'' @ [NL])] of
        Inl e \<Rightarrow> Inl e
      | Inr content_parts \<Rightarrow> join_values [NL] content_parts)))))"

definition extract_ipynb_code :: "json_loader \<Rightarrow> file_entry \<Rightarrow> string" where
  "extract_ipynb_code json_loads f =
     (case (case read_strict f of
              Inl e \<Rightarrow> Inl e
            | Inr text \<Rightarrow>
                (case json_loads text of
                   JSONDecodeError e \<Rightarrow> Inl e
                 | OtherError e \<Rightarrow> Inl e
                 | Loaded notebook \<Rightarrow> nb_render notebook)) of
        Inl e \<Rightarrow> ''Error reading notebook: '' @ e
      | Inr r \<Rightarrow> r)"

section \<open>Content extraction\<close>

definition EXTENSIONS_TO_SKIP :: "string set" where
  "EXTENSIONS_TO_SKIP =
     {''.flac'', ''.wav'', ''.mp3'', ''.ogg'', ''.m4a'', ''.aac'', ''.wma'', ''.aiff'',
      ''.mp4'', ''.avi'', ''.mkv'', ''.mov'', ''.wmv'', ''.webm'', ''.flv'',
      ''.png'', ''.jpg'', ''.jpeg'', ''.gif'', ''.bmp'', ''.tiff'', ''.ico'', ''.webp'', ''.svg'',
      ''.pdf'', ''.doc'', ''.docx'', ''.xls'', ''.xlsx'', ''.ppt'', ''.pptx'', ''.odt'',
      ''.zip'', ''.rar'', ''.7z'', ''.tar'', ''.gz'', ''.bz2'', ''.xz'', ''.zst'',
      ''.exe'', ''.dll'', ''.so'', ''.dylib'', ''.bin'', ''.o'', ''.a'', ''.lib'',
      ''.pkl'', ''.pickle'', ''.npy'', ''.npz'', ''.h5'', ''.hdf5'',
      ''.pt'', ''.pth'', ''.ckpt'', ''.safetensors'', ''.onnx'', ''.pb'',
      ''.db'', ''.sqlite'', ''.sqlite3'', ''.mdb'',
      ''.pyc'', ''.pyo'', ''.class'', ''.jar'', ''.war'', ''.woff'', ''.woff2'', ''.ttf'', ''.eot''}"

definition TEXT_EXTENSIONS :: "string set" where
  "TEXT_EXTENSIONS =
     {''.py'', ''.js'', ''.ts'', ''.jsx'', ''.tsx'', ''.java'', ''.c'', ''.cpp'', ''.h'', ''.hpp'',
      ''.cs'', ''.go'', ''.rs'', ''.rb'', ''.php'', ''.swift'', ''.kt'', ''.scala'', ''.r'',
      ''.lua'', ''.pl'', ''.pm'', ''.sh'', ''.bash'', ''.zsh'', ''.fish'', ''.ps1'', ''.bat'', ''.cmd'',
      ''.json'', ''.yaml'', ''.yml'', ''.toml'', ''.ini'', ''.cfg'', ''.conf'', ''.config'',
      ''.env'', ''.env.example'', ''.env.local'', ''.properties'',
      ''.md'', ''.rst'', ''.txt'', ''.adoc'',
      ''.html'', ''.htm'', ''.css'', ''.scss'', ''.sass'', ''.less'', ''.vue'', ''.svelte'',
      ''.xml'', ''.csv'', ''.sql'',
      ''.gitignore'', ''.dockerignore'', ''.editorconfig'', ''.prettierrc'', ''.eslintrc''}"

definition PRIORITY_FILES :: "string set" where
  "PRIORITY_FILES =
     {''README.md'', ''readme.md'', ''README.rst'', ''README.txt'', ''README'',
      ''pyproject.toml'', ''setup.py'', ''setup.cfg'', ''requirements.txt'',
      ''package.json'', ''Cargo.toml'', ''go.mod'', ''Gemfile'', ''pom.xml'',
      ''Makefile'', ''Dockerfile'', ''docker-compose.yml'', ''docker-compose.yaml'',
      ''.env.example'', ''config.yaml'', ''config.json'', ''settings.py'',
      ''main.py'', ''app.py'', ''index.js'', ''index.ts'', ''main.go'', ''main.rs''}"

text \<open>The lines a text file yields when iterated: each keeps its newline.\<close>

fun file_lines :: "string \<Rightarrow> string list" where
  "file_lines [] = []"
| "file_lines (c # cs) =
     (if c = NL then [NL] # file_lines cs
      else (case file_lines cs of [] \<Rightarrow> [[c]] | l # ls \<Rightarrow> (c # l) # ls))"

definition json_summary :: "nat \<Rightarrow> json \<Rightarrow> string" where
  "json_summary file_size data =
     (let summary = ''[JSON file: '' @ format_size file_size @ '']'' @ [NL, NL];
          summary = summary @ summarize_json_structure data 4 0 5 []
      in case data of
           JList xs \<Rightarrow> summary @ [NL, NL] @ ''# Total items: '' @ show_nat (length xs)
         | JDict kvs \<Rightarrow> summary @ [NL, NL] @ ''# Top-level keys: '' @
                          py_repr (JList (map (\<lambda>kv. JStr (fst kv)) kvs))
         | _ \<Rightarrow> summary)"

definition process_file_content ::
  "json_loader \<Rightarrow> filesystem \<Rightarrow> string \<Rightarrow> string \<Rightarrow> string option" where
  "process_file_content json_loads fs filepath filename =
     (let ext = py_lower (splitext_ext filename) in
      case fs filepath of
        None \<Rightarrow> None
      | Some f \<Rightarrow>
          (let file_size = fsize f in
           if file_size > MAX_FILE_SIZE_PARTIAL then
             Some (''[File too large: '' @ format_size file_size @ '' - skipped]'')
           else if endswith filename ''.ipynb'' then
             Some (extract_ipynb_code json_loads f)
           else if ext = ''.json'' then
             (case read_replace f of
                Inl e \<Rightarrow> Some (''[Error reading file: '' @ e @ '']'')
              | Inr text \<Rightarrow>
                  if file_size < 5000 then Some text
                  else
                    (case json_loads text of
                       JSONDecodeError e \<Rightarrow> Some (''[JSON parse error: '' @ e @ '']'')
                     | OtherError e \<Rightarrow> Some (''[Error reading file: '' @ e @ '']'')
                     | Loaded data \<Rightarrow> Some (json_summary file_size data)))
           else if ext = ''.jsonl'' then
             (case read_replace f of
                Inl e \<Rightarrow> Some (''[Error reading file: '' @ e @ '']'')
              | Inr text \<Rightarrow>
                  (let lines = take 5 (file_lines text) in
                   if lines = [] then Some ''(Empty file)''
                   else Some (''[JSONL file: '' @ format_size file_size @ '']'' @ [NL] @
                              ''# First '' @ show_nat (length lines) @ '' lines:'' @ [NL, NL] @
                              concat lines @ [NL] @ ''... (truncated)'')))
           else if ext \<in> {''.yaml'', ''.yml'', ''.toml''} then
             (case read_replace f of
                Inl e \<Rightarrow> Some (''[Error reading file: '' @ e @ '']'')
              | Inr content \<Rightarrow>
                  if length content > MAX_FILE_SIZE_FULL then
                    (let lines = take MAX_LINES_PREVIEW (py_split NL content) in
                     Some (py_join [NL] lines @ [NL, NL] @ ''... ['' @
                           show_int (int (length (py_split NL content)) - int MAX_LINES_PREVIEW) @
                           '' more lines]''))
                  else Some content)
           else if ext \<in> TEXT_EXTENSIONS \<or> filename \<in> PRIORITY_FILES \<or> ext = [] then
             (case read_replace f of
                Inl e \<Rightarrow> Some (''[Error reading file: '' @ e @ '']'')
              | Inr content \<Rightarrow>
                  if file_size > MAX_FILE_SIZE_FULL then
                    (let lines = take MAX_LINES_PREVIEW (py_split NL content) in
                     Some (py_join [NL] lines @ [NL, NL] @ ''... [truncated - '' @
                           format_size file_size @ '' total]''))
                  else Some content)
           else None))"

section \<open>Processing the collected files\<close>

record stats =
  processed :: nat
  skipped :: nat
  errors :: nat
  total_chars :: nat

definition stats0 :: stats where
  "stats0 = \<lparr>processed = 0, skipped = 0, errors = 0, total_chars = 0\<rparr>"

text \<open>
  A collected file is (priority, relative path, path). The state of the loop is the
  counters and the chunks written to the output handle so far.
\<close>

type_synonym file_record = "nat \<times> string \<times> string"

definition process_one ::
  "json_loader \<Rightarrow> filesystem \<Rightarrow> file_record \<Rightarrow> stats \<times> string list \<Rightarrow> stats \<times> string list" where
  "process_one json_loads fs rec st =
     (case rec of (priority, rel_path, filepath) \<Rightarrow>
      (let filename = basename filepath;
           content = process_file_content json_loads fs filepath filename
       in case content of
            None \<Rightarrow> ((fst st)\<lparr>skipped := skipped (fst st) + 1\<rparr>, snd st)
          | Some c \<Rightarrow>
              (let s1 = (if startswith c ''[Error''
                         then (fst st)\<lparr>errors := errors (fst st) + 1\<rparr> else fst st);
                   out = snd st @ [SEPARATOR, ''FILE: '' @ rel_path @ [NL], SEPARATOR, c @ [NL]]
               in (s1\<lparr>processed := processed s1 + 1,
                      total_chars := total_chars s1 + length c\<rparr>, out))))"

definition process_files ::
  "json_loader \<Rightarrow> filesystem \<Rightarrow> file_record list \<Rightarrow> string list \<Rightarrow> stats \<times> string list" where
  "process_files json_loads fs files output_handle =
     fold (process_one json_loads fs) files (stats0, output_handle)"

section \<open>The summary footer\<close>

text \<open>The format \<open>{n:,}\<close>: decimal digits in groups of three.\<close>

function comma_fmt :: "nat \<Rightarrow> string" where
  "comma_fmt n =
     (if n < 1000 then show_nat n
      else comma_fmt (n div 1000) @ '','' @
           [digit_char (n mod 1000 div 100), digit_char (n mod 100 div 10), digit_char (n mod 10)])"
  by pat_completeness auto
termination
  by (relation "measure id") auto

declare comma_fmt.simps [simp del]

text \<open>The number \<open>main\<close> prints after \<open>Estimated tokens: ~\<close>.\<close>

definition footer_tokens :: "stats \<Rightarrow> nat" where
  "footer_tokens file_stats = estimate_tokens (show_nat (total_chars file_stats))"

definition summary_footer :: "stats \<Rightarrow> string list" where
  "summary_footer file_stats =
     [[NL] @ replicate 80 (CHR ''='') @ [NL],
      ''SUMMARY'' @ [NL],
      replicate 80 (CHR ''='') @ [NL],
      ''Files processed: '' @ show_nat (processed file_stats) @ [NL],
      ''Files skipped: '' @ show_nat (skipped file_stats) @ [NL],
      ''Errors: '' @ show_nat (errors file_stats) @ [NL],
      ''Estimated tokens: ~'' @ comma_fmt (footer_tokens file_stats) @ [NL]]"

section \<open>Reading a file in text mode\<close>

text \<open>
  \<open>open(path, 'r', encoding='utf-8')\<close> passes no \<open>newline\<close> argument, so what is
  read has every \<open>\r\n\<close> and every remaining \<open>\r\<close> replaced by \<open>\n\<close>. On a file
  whose bytes are all ASCII, decoding changes nothing else, with or without
  \<open>errors='replace'\<close>; \<open>ascii_file\<close> is the entry of such a file, readable, with
  the given bytes. (A byte outside ASCII starts a multi-byte character or is replaced
  by U+FFFD, neither of which a \<open>char\<close> can hold.)
\<close>

definition CR :: char where
  "CR = CHR 0x0D"

fun universal_newlines :: "string \<Rightarrow> string" where
  "universal_newlines [] = []"
| "universal_newlines [c] = (if c = CR then [NL] else [c])"
| "universal_newlines (c # d # ds) =
     (if c = CR \<and> d = NL then NL # universal_newlines ds
      else if c = CR then NL # universal_newlines (d # ds)
      else c # universal_newlines (d # ds))"

definition is_ascii :: "string \<Rightarrow> bool" where
  "is_ascii bytes = (\<forall>b \<in> set bytes. (of_char b :: nat) < 128)"

definition ascii_file :: "string \<Rightarrow> file_entry" where
  "ascii_file bytes =
     \<lparr>fsize = length bytes,
      read_strict = Inr (universal_newlines bytes),
      read_replace = Inr (universal_newlines bytes)\<rparr>"

section \<open>The directory tree\<close>

text \<open>
  A snapshot of the file system below a directory. A file carries what
  \<open>os.path.getsize\<close> gives for it (nothing when the call raises, as for a dangling
  link); a directory carries what \<open>os.listdir\<close> gives, the names paired with the nodes
  they lead to, in the order the system returns them (nothing when listing is denied).
\<close>

datatype node =
    File "nat option"
  | Dir "(string \<times> node) list option"

type_synonym listing = "(string \<times> node) list option"

definition DIRS_TO_EXCLUDE :: "string set" where
  "DIRS_TO_EXCLUDE =
     {''.git'', ''venv'', ''env'', ''.venv'', ''__pycache__'', ''.idea'', ''.vscode'',
      ''node_modules'', ''.mypy_cache'', ''.pytest_cache'', ''.tox'', ''.eggs'',
      ''*.egg-info'', ''dist'', ''build'', ''.cache'', ''.coverage'', ''htmlcov'',
      ''.ipynb_checkpoints'', ''.terraform'', ''.serverless''}"

definition DIRS_TO_SUMMARIZE :: "string set" where
  "DIRS_TO_SUMMARIZE =
     {''signals'', ''unprocessed'', ''data'', ''datasets'', ''logs'', ''outputs'',
      ''checkpoints'', ''models'', ''weights'', ''assets'', ''static'', ''migrations''}"

text \<open>The connectors of the tree view, as UTF-8 bytes.\<close>

definition CONN_LAST :: string where
  "CONN_LAST = [CHR 0xE2, CHR 0x94, CHR 0x94, CHR 0xE2, CHR 0x94, CHR 0x80,
                CHR 0xE2, CHR 0x94, CHR 0x80, CHR 0x20]"

definition CONN_MID :: string where
  "CONN_MID = [CHR 0xE2, CHR 0x94, CHR 0x9C, CHR 0xE2, CHR 0x94, CHR 0x80,
               CHR 0xE2, CHR 0x94, CHR 0x80, CHR 0x20]"

definition BAR_INDENT :: string where
  "BAR_INDENT = [CHR 0xE2, CHR 0x94, CHR 0x82, CHR 0x20, CHR 0x20, CHR 0x20]"

definition PACKAGE :: string where
  "PACKAGE = [CHR 0xF0, CHR 0x9F, CHR 0x93, CHR 0xA6]"

definition connector_of :: "bool \<Rightarrow> string" where
  "connector_of is_last = (if is_last then CONN_LAST else CONN_MID)"

definition should_exclude_dir :: "string \<Rightarrow> string set \<Rightarrow> bool" where
  "should_exclude_dir dirname exclude_set =
     (dirname \<in> exclude_set \<or>
      (\<exists>pattern \<in> exclude_set. startswith pattern ''*'' \<and> endswith dirname (tl pattern)))"

text \<open>
  What \<open>get_directory_structure\<close> is given besides the root: the name of the script
  itself (\<open>os.path.basename(__file__)\<close>) and the three sets.
\<close>

record tree_env =
  script_name :: string
  exclude_dirs :: "string set"
  summarize_dirs :: "string set"
  gitignore_patterns :: "string set"

text \<open>
  The state of the walk: the lines so far and the counters, a \<open>defaultdict(int)\<close>.
\<close>

type_synonym tree_stats = "string \<Rightarrow> nat"

type_synonym walk_state = "string list \<times> tree_stats"

definition add_line :: "string \<Rightarrow> walk_state \<Rightarrow> walk_state" where
  "add_line l st = (fst st @ [l], snd st)"

definition add_stat :: "string \<Rightarrow> nat \<Rightarrow> walk_state \<Rightarrow> walk_state" where
  "add_stat k n st = (fst st, (snd st)(k := snd st k + n))"

definition is_dir :: "(string \<times> node) list \<Rightarrow> string \<Rightarrow> bool" where
  "is_dir es entry = (case map_of es entry of Some (Dir _) \<Rightarrow> True | _ \<Rightarrow> False)"

definition getsize :: "(string \<times> node) list \<Rightarrow> string \<Rightarrow> nat option" where
  "getsize es f = (case map_of es f of Some (File sz) \<Rightarrow> sz | _ \<Rightarrow> None)"

text \<open>
  A \<open>defaultdict(int)\<close> whose items are read in insertion order: \<open>counts[k] += 1\<close>.
\<close>

fun count_up :: "string \<Rightarrow> (string \<times> nat) list \<Rightarrow> (string \<times> nat) list" where
  "count_up k [] = [(k, 1)]"
| "count_up k ((k', c) # rest) =
     (if k = k' then (k', c + 1) # rest else (k', c) # count_up k rest)"

text \<open>
  \<open>[f"{count}{ext}" for ext, count in sorted(counts.items(), key=lambda x: -x[1])[:5]]\<close>;
  the sort is stable.
\<close>

definition top_extensions :: "(string \<times> nat) list \<Rightarrow> string list" where
  "top_extensions counts =
     map (\<lambda>(ext, count). show_nat count @ ext)
       (take 5 (sort_key (\<lambda>(ext, count). - int count) counts))"

text \<open>
  The first loop of \<open>_walk_dir\<close> over the sorted entries: the subdirectories kept and
  the files kept.
\<close>

definition listed_dirs :: "tree_env \<Rightarrow> (string \<times> node) list \<Rightarrow> string list" where
  "listed_dirs env es =
     filter (\<lambda>entry. is_dir es entry
                \<and> \<not> should_exclude_dir entry (exclude_dirs env)
                \<and> entry \<notin> gitignore_patterns env)
       (sort (map fst es))"

definition listed_files :: "tree_env \<Rightarrow> (string \<times> node) list \<Rightarrow> string list" where
  "listed_files env es =
     filter (\<lambda>entry. \<not> is_dir es entry
                \<and> entry \<notin> {OUTPUT_FILE, script_name env}
                \<and> entry \<notin> gitignore_patterns env)
       (sort (map fst es))"

text \<open>\<open>os.path.splitext(f)[1].lower() or '(no ext)'\<close>\<close>

definition ext_label :: "string \<Rightarrow> string" where
  "ext_label f = (if py_lower (splitext_ext f) = [] then ''(no ext)''
                  else py_lower (splitext_ext f))"

text \<open>The branch of \<open>_walk_dir\<close> for a directory named in the summarize set.\<close>

definition summarize_branch ::
  "(string \<times> node) list \<Rightarrow> string list \<Rightarrow> string \<Rightarrow> walk_state \<Rightarrow> walk_state" where
  "summarize_branch es files new_prefix st =
     (let (ext_counts, total_size) =
            fold (\<lambda>f (ext_counts, total_size).
                    (let ext = ext_label f
                     in (count_up ext ext_counts,
                         (case getsize es f of Some n \<Rightarrow> total_size + n | None \<Rightarrow> total_size))))
                 files ([], 0);
          st1 = (if files \<noteq> [] then
                   add_line (new_prefix @ PACKAGE @ '' ['' @ show_nat (length files) @
                             '' files, '' @ format_size total_size @ '']: '' @
                             py_join '', '' (top_extensions ext_counts)) st
                 else st)
      in add_stat ''summarized_files'' (length files) (add_stat ''summarized_dirs'' 1 st1))"

text \<open>
  The part of \<open>_walk_dir\<close> that lists the files of a directory; it returns
  \<open>entry_idx\<close> and \<open>total_entries\<close> with the state.
\<close>

definition render_files ::
  "(string \<times> node) list \<Rightarrow> string list \<Rightarrow> string list \<Rightarrow> string \<Rightarrow> walk_state \<Rightarrow>
   nat \<times> nat \<times> walk_state" where
  "render_files es dirs files new_prefix st =
     (let (files_to_show, skipped_by_ext, st1) =
            fold (\<lambda>f (files_to_show, skipped_by_ext, s).
                    (let ext = py_lower (splitext_ext f) in
                     if ext \<in> EXTENSIONS_TO_SKIP
                     then (files_to_show, count_up ext skipped_by_ext, add_stat ''skipped_files'' 1 s)
                     else (files_to_show @ [f], skipped_by_ext, add_stat ''total_files'' 1 s)))
                 files ([], [], st);
          total_entries = length dirs + length files_to_show +
                          (if skipped_by_ext \<noteq> [] then 1 else 0);
          (entry_idx, st2) =
            fold (\<lambda>f (entry_idx, s).
                    (let entry_idx = entry_idx + 1;
                         is_last_entry = (entry_idx = total_entries);
                         file_connector = connector_of is_last_entry;
                         size_str = (case getsize es f of
                                       Some n \<Rightarrow> '' ('' @ format_size n @ '')''
                                     | None \<Rightarrow> [])
                     in (entry_idx, add_line (new_prefix @ file_connector @ f @ size_str) s)))
                 (take MAX_FILES_PER_DIR files_to_show) (0, st1);
          (entry_idx, st3) =
            (if length files_to_show > MAX_FILES_PER_DIR then
               (let entry_idx = entry_idx + 1;
                    connector = connector_of (entry_idx = total_entries)
                in (entry_idx,
                    add_line (new_prefix @ connector @ ''... and '' @
                              show_nat (length files_to_show - MAX_FILES_PER_DIR) @
                              '' more files'') st2))
             else (entry_idx, st2));
          (entry_idx, st4) =
            (if skipped_by_ext \<noteq> [] then
               (let entry_idx = entry_idx + 1;
                    connector = connector_of (entry_idx = total_entries)
                in (entry_idx,
                    add_line (new_prefix @ connector @ ''[skipped: '' @
                              py_join '', '' (top_extensions skipped_by_ext) @ '']'') st3))
             else (entry_idx, st3))
      in (entry_idx, total_entries, st4))"

lemma child_listing_size:
  "map_of es d = Some (Dir l) \<Longrightarrow>
     size_option (size_list (size_prod (\<lambda>_. 0) size)) l
       < Suc (size_list (size_prod (\<lambda>_. 0) size) es)"
proof (induction es)
  case Nil
  then show ?case by simp
next
  case (Cons e es)
  then show ?case by (cases e) (auto split: if_splits)
qed

function walk_dir ::
  "tree_env \<Rightarrow> bool \<Rightarrow> string \<Rightarrow> listing \<Rightarrow> string \<Rightarrow> bool \<Rightarrow> walk_state \<Rightarrow> walk_state" where
  "walk_dir env is_root dir_name listing prefix is_last st =
     (let connector = connector_of is_last;
          st1 = (if is_root then add_line (dir_name @ ''/'') st
                 else add_line (prefix @ connector @ dir_name @ ''/'') st);
          new_prefix = (if is_root then [] else prefix @ (if is_last then ''    '' else BAR_INDENT))
      in case listing of
           None \<Rightarrow> add_line (new_prefix @ ''[Permission Denied]'') st1
         | Some es \<Rightarrow>
             (let dirs = listed_dirs env es;
                  files = listed_files env es
              in if dir_name \<in> summarize_dirs env then summarize_branch es files new_prefix st1
                 else
                   (case render_files es dirs files new_prefix st1 of
                      (entry_idx, total_entries, st2) \<Rightarrow>
                        fold (\<lambda>(i, d) s.
                                (case map_of es d of
                                   Some (Dir l) \<Rightarrow>
                                     add_stat ''total_dirs'' 1
                                       (walk_dir env False d l new_prefix
                                          (i = length dirs - 1 \<and> entry_idx = total_entries) s)
                                 | _ \<Rightarrow> s))
                             (enumerate 0 dirs) st2)))"
  by pat_completeness auto
termination
  apply (relation "measure (\<lambda>(env, is_root, dir_name, listing, prefix, is_last, st).
                      size_option (size_list (size_prod (\<lambda>_. 0) size)) listing)")
   apply simp
  apply (auto dest: child_listing_size)
  done

declare walk_dir.simps [simp del]

definition get_directory_structure ::
  "tree_env \<Rightarrow> string \<Rightarrow> listing \<Rightarrow> string \<times> tree_stats" where
  "get_directory_structure env rootdir root =
     (let st = walk_dir env True (basename rootdir) root [] True ([], \<lambda>_. 0)
      in (py_join [NL] (fst st), snd st))"

section \<open>Notions used in the statements about the tree\<close>







section \<open>Example directories\<close>

definition env0 :: tree_env where
  "env0 = \<lparr>script_name = ''generate_context.py'', exclude_dirs = DIRS_TO_EXCLUDE,
            summarize_dirs = DIRS_TO_SUMMARIZE, gitignore_patterns = {}\<rparr>"




section \<open>Snapshots up to listing order\<close>

text \<open>
  Two runs over an unchanged directory tree may be handed the entries of a directory in
  different orders, since \<open>os.listdir\<close> promises none. \<open>canon\<close> sorts every
  listing of a tree by name: two trees are the same snapshot when their canonical forms
  are equal. In a snapshot the names within one directory are distinct.
\<close>

lemma entry_size:
  "e \<in> set es \<Longrightarrow> size (snd e) < Suc (Suc (size_list (size_prod (\<lambda>_. 0) size) es))"
  by (induction es) auto

function canon :: "node \<Rightarrow> node" where
  "canon (File sz) = File sz"
| "canon (Dir None) = Dir None"
| "canon (Dir (Some es)) = Dir (Some (sort_key fst (map (\<lambda>e. (fst e, canon (snd e))) es)))"
  by pat_completeness auto
termination
  by (relation "measure size") (auto dest: entry_size)

function distinct_names :: "node \<Rightarrow> bool" where
  "distinct_names (File sz) = True"
| "distinct_names (Dir None) = True"
| "distinct_names (Dir (Some es)) =
     (distinct (map fst es) \<and> (\<forall>e \<in> set es. distinct_names (snd e)))"
  by pat_completeness auto
termination
  by (relation "measure size") (auto dest: entry_size)

definition canon_listing :: "listing \<Rightarrow> listing" where
  "canon_listing l = (case canon (Dir l) of Dir l' \<Rightarrow> l' | File _ \<Rightarrow> None)"

text \<open>A directory with a file and a subdirectory, listed in two orders.\<close>

definition listing_one :: listing where
  "listing_one =
     Some [(''b.txt'', File (Some 12)),
           (''src'', Dir (Some [(''m.py'', File (Some 7)), (''k.py'', File None)])),
           (''a.png'', File (Some 2000))]"

definition listing_two :: listing where
  "listing_two =
     Some [(''src'', Dir (Some [(''k.py'', File None), (''m.py'', File (Some 7))])),
           (''a.png'', File (Some 2000)),
           (''b.txt'', File (Some 12))]"

section \<open>Notions used in the statements\<close>

text \<open>The content \<open>process_files\<close> extracts for a collected file.\<close>

definition content_of :: "json_loader \<Rightarrow> filesystem \<Rightarrow> file_record \<Rightarrow> string option" where
  "content_of json_loads fs rec =
     (case rec of (priority, rel_path, filepath) \<Rightarrow>
        process_file_content json_loads fs filepath (basename filepath))"

definition is_error_text :: "string option \<Rightarrow> bool" where
  "is_error_text content = (case content of None \<Rightarrow> False | Some c \<Rightarrow> startswith c ''[Error'')"

section \<open>Example inputs\<close>

definition no_loader :: json_loader where
  "no_loader text = OtherError []"

text \<open>A text file of 1000 characters.\<close>

definition fs_thousand :: filesystem where
  "fs_thousand p =
     (if p = ''/r/a.txt''
      then Some \<lparr>fsize = 1000, read_strict = Inr (replicate 1000 (CHR ''a'')),
                 read_replace = Inr (replicate 1000 (CHR ''a''))\<rparr>
      else None)"

text \<open>A small JSON file, and one whose two lines end in \<open>\r\n\<close>.\<close>

definition fs_small_json :: filesystem where
  "fs_small_json p = (if p = ''/r/Conf.JSON'' then Some (ascii_file ''[1, 2, 3]'') else None)"

definition crlf_bytes :: string where
  "crlf_bytes = ''[1,'' @ [CR, NL] @ ''2]'' @ [CR, NL]"

definition fs_crlf_json :: filesystem where
  "fs_crlf_json p = (if p = ''/r/c.json'' then Some (ascii_file crlf_bytes) else None)"

definition decode_error_loader :: json_loader where
  "decode_error_loader text = JSONDecodeError ''Expecting property name enclosed in double quotes: line 1 column 2 (char 1)''"

definition fs_bad_json :: filesystem where
  "fs_bad_json p =
     (if p = ''/r/bad.json''
      then Some \<lparr>fsize = 6000, read_strict = Inr (replicate 6000 (CHR ''{'')),
                 read_replace = Inr (replicate 6000 (CHR ''{''))\<rparr>
      else None)"

definition fs_unknown_ext :: filesystem where
  "fs_unknown_ext p =
     (if p = ''/r/notes.xyz''
      then Some \<lparr>fsize = 10, read_strict = Inr ''0123456789'', read_replace = Inr ''0123456789''\<rparr>
      else None)"

definition fs_big :: filesystem where
  "fs_big p =
     (if p = ''/r/big.txt''
      then Some \<lparr>fsize = 200001, read_strict = Inr (replicate 200001 (CHR ''a'')),
                 read_replace = Inr (replicate 200001 (CHR ''a''))\<rparr>
      else None)"





text \<open>
  A JSON file of 6000 opening brackets, on which \<open>json.load\<close> raises
  \<open>RecursionError\<close>, and a small JSON file whose text is \<open>[Error]\<close>.
\<close>

definition recursion_error_loader :: json_loader where
  "recursion_error_loader text =
     OtherError ''maximum recursion depth exceeded while decoding a JSON array from a unicode string''"

definition fs_deep_json :: filesystem where
  "fs_deep_json p =
     (if p = ''/r/deep.json''
      then Some \<lparr>fsize = 6000, read_strict = Inr (replicate 6000 (CHR ''['')),
                 read_replace = Inr (replicate 6000 (CHR ''[''))\<rparr>
      else None)"

definition fs_error_text_json :: filesystem where
  "fs_error_text_json p =
     (if p = ''/r/e.json''
      then Some \<lparr>fsize = 7, read_strict = Inr ''[Error]'', read_replace = Inr ''[Error]''\<rparr>
      else None)"

section \<open>Well-formed notebooks\<close>

text \<open>
  A notebook is well formed when it is an object whose \<open>cells\<close>, if present, is a list of
  objects, the \<open>source\<close> of each, if present, a string or a list of strings.
  \<open>cell_block\<close> is what one cell contributes to the parts joined by newlines.
\<close>

fun is_str :: "json \<Rightarrow> bool" where
  "is_str (JStr _) = True"
| "is_str _ = False"

fun str_of :: "json \<Rightarrow> string" where
  "str_of (JStr s) = s"
| "str_of _ = []"

fun wf_source :: "json \<Rightarrow> bool" where
  "wf_source (JStr _) = True"
| "wf_source (JList xs) = (\<forall>x \<in> set xs. is_str x)"
| "wf_source _ = False"

fun wf_cell :: "json \<Rightarrow> bool" where
  "wf_cell (JDict kvs) = (case map_of kvs ''source'' of None \<Rightarrow> True | Some s \<Rightarrow> wf_source s)"
| "wf_cell _ = False"

fun wf_notebook :: "json \<Rightarrow> bool" where
  "wf_notebook (JDict kvs) =
     (case map_of kvs ''cells'' of
        None \<Rightarrow> True
      | Some (JList cells) \<Rightarrow> (\<forall>c \<in> set cells. wf_cell c)
      | Some _ \<Rightarrow> False)"
| "wf_notebook _ = False"

fun nb_cells :: "json \<Rightarrow> json list" where
  "nb_cells (JDict kvs) = (case map_of kvs ''cells'' of Some (JList cells) \<Rightarrow> cells | _ \<Rightarrow> [])"
| "nb_cells _ = []"

fun cell_type_of :: "json \<Rightarrow> json" where
  "cell_type_of (JDict kvs) = (case map_of kvs ''cell_type'' of None \<Rightarrow> JStr ''unknown'' | Some t \<Rightarrow> t)"
| "cell_type_of _ = JStr ''unknown''"

fun cell_source :: "json \<Rightarrow> string" where
  "cell_source (JDict kvs) =
     (case map_of kvs ''source'' of
        Some (JStr s) \<Rightarrow> s
      | Some (JList xs) \<Rightarrow> concat (map str_of xs)
      | _ \<Rightarrow> [])"
| "cell_source _ = []"

definition cell_block :: "nat \<Rightarrow> json \<Rightarrow> string list" where
  "cell_block i cell =
     (if cell_type_of cell = JStr ''code'' then
        [[NL] @ ''# --- Cell '' @ show_nat (i + 1) @ '' [Code] ---'', cell_source cell]
      else if cell_type_of cell = JStr ''markdown'' \<and> length (cell_source cell) < 500 then
        ([NL] @ ''# --- Cell '' @ show_nat (i + 1) @ '' [Markdown] ---'') #
          map (\<lambda>line. ''# '' @ line) (py_split NL (cell_source cell))
      else [])"

definition nb_header :: "json list \<Rightarrow> string" where
  "nb_header cells =
     ''# Jupyter Notebook: '' @
       show_nat (length (filter (\<lambda>c. cell_type_of c = JStr ''code'') cells)) @ '' code cells, '' @
       show_nat (length (filter (\<lambda>c. cell_type_of c = JStr ''markdown'') cells)) @
       '' markdown cells'' @ [NL]"

definition quoted :: "string \<Rightarrow> string" where
  "quoted s = [DQ] @ s @ [DQ]"

text \<open>A notebook whose only cell is a markdown cell of exactly 500 characters.\<close>

definition nb_md500 :: json where
  "nb_md500 = JDict [(''cells'', JList
     [JDict [(''cell_type'', JStr ''markdown''), (''source'', JStr (replicate 500 (CHR ''m'')))]])]"

definition file_md500 :: file_entry where
  "file_md500 =
     (let t = ''{'' @ quoted ''cells'' @ '': [{'' @ quoted ''cell_type'' @ '': '' @
              quoted ''markdown'' @ '', '' @ quoted ''source'' @ '': '' @
              quoted (replicate 500 (CHR ''m'')) @ ''}]}''
      in \<lparr>fsize = length t, read_strict = Inr t, read_replace = Inr t\<rparr>)"

definition load_md500 :: json_loader where
  "load_md500 t = Loaded nb_md500"

text \<open>
  A notebook with a short markdown cell, a markdown cell of 600 characters and a code
  cell.
\<close>

definition nb_three :: json where
  "nb_three = JDict [(''cells'', JList
     [JDict [(''cell_type'', JStr ''markdown''), (''source'', JList [JStr ''Title'', JStr [NL], JStr ''more''])],
      JDict [(''cell_type'', JStr ''markdown''), (''source'', JStr (replicate 600 (CHR ''m'')))],
      JDict [(''cell_type'', JStr ''code''), (''source'', JList [JStr ''x = 1''])]])]"

definition file_three :: file_entry where
  "file_three =
     (let t = ''{'' @ quoted ''cells'' @ '': [{'' @ quoted ''cell_type'' @ '': '' @
              quoted ''markdown'' @ '', '' @ quoted ''source'' @ '': ['' @
              quoted ''Title'' @ '', '' @ quoted [BSL, CHR ''n''] @ '', '' @ quoted ''more'' @ '']}, {'' @
              quoted ''cell_type'' @ '': '' @ quoted ''markdown'' @ '', '' @
              quoted ''source'' @ '': '' @ quoted (replicate 600 (CHR ''m'')) @ ''}, {'' @
              quoted ''cell_type'' @ '': '' @ quoted ''code'' @ '', '' @
              quoted ''source'' @ '': ['' @ quoted ''x = 1'' @ '']}]}''
      in \<lparr>fsize = length t, read_strict = Inr t, read_replace = Inr t\<rparr>)"

definition load_three :: json_loader where
  "load_three t = Loaded nb_three"

section \<open>Shared lemmas\<close>

lemma endswithD: "endswith s p \<Longrightarrow> \<exists>pre. s = pre @ p"
  unfolding endswith_def by (metis append_take_drop_id)

lemma basename_append_ipynb: "basename (pre @ ''.ipynb'') = basename pre @ ''.ipynb''"
  by (simp add: basename_def)

lemma ext_of_ipynb:
  "endswith name ''.ipynb'' \<Longrightarrow> splitext_ext name = [] \<or> splitext_ext name = ''.ipynb''"
proof -
  assume "endswith name ''.ipynb''"
  then obtain pre where n: "name = pre @ ''.ipynb''" using endswithD by blast
  define b where "b = basename pre"
  have base: "basename name = b @ ''.ipynb''" by (simp add: n b_def basename_append_ipynb)
  have tw: "takeWhile (\<lambda>c. c \<noteq> CHR ''.'') (rev (b @ ''.ipynb'')) = ''bnypi''" by simp
  show ?thesis unfolding splitext_ext_def Let_def base tw by simp
qed

lemma lower_ext_of_ipynb:
  "endswith name ''.ipynb'' \<Longrightarrow>
     py_lower (splitext_ext name) = [] \<or> py_lower (splitext_ext name) = ''.ipynb''"
  using ext_of_ipynb [of name] by (auto simp: py_lower_def lower_char_def)

lemma process_one_skipped:
  "skipped (fst (process_one jl fs r st)) =
     skipped (fst st) + (if content_of jl fs r = None then 1 else 0)"
  by (cases r) (auto simp: process_one_def content_of_def Let_def split: option.splits)

lemma process_one_processed:
  "processed (fst (process_one jl fs r st)) =
     processed (fst st) + (if content_of jl fs r = None then 0 else 1)"
  by (cases r) (auto simp: process_one_def content_of_def Let_def split: option.splits)

lemma process_one_errors:
  "errors (fst (process_one jl fs r st)) =
     errors (fst st) + (if is_error_text (content_of jl fs r) then 1 else 0)"
  by (cases r)
    (auto simp: process_one_def content_of_def is_error_text_def Let_def split: option.splits)

lemma fold_skipped:
  "skipped (fst (fold (process_one jl fs) files st)) =
     skipped (fst st) + length (filter (\<lambda>r. content_of jl fs r = None) files)"
  by (induction files arbitrary: st) (simp_all add: process_one_skipped)

lemma fold_processed:
  "processed (fst (fold (process_one jl fs) files st)) =
     processed (fst st) + length (filter (\<lambda>r. content_of jl fs r \<noteq> None) files)"
  by (induction files arbitrary: st) (simp_all add: process_one_processed)

lemma fold_errors:
  "errors (fst (fold (process_one jl fs) files st)) =
     errors (fst st) + length (filter (\<lambda>r. is_error_text (content_of jl fs r)) files)"
  by (induction files arbitrary: st) (simp_all add: process_one_errors)

lemma not_error_replicate_a: "\<not> startswith (replicate n (CHR ''a'')) ''[Error''"
  by (cases n) (simp_all add: startswith_def)

lemma ext_a_txt: "py_lower (splitext_ext ''a.txt'') = ''.txt''"
  by (simp add: splitext_ext_def basename_def py_lower_def lower_char_def)

lemma txt_is_text: "''.txt'' \<in> TEXT_EXTENSIONS"
  by (simp add: TEXT_EXTENSIONS_def)

lemma content_thousand:
  "process_file_content no_loader fs_thousand ''/r/a.txt'' ''a.txt'' =
     Some (replicate 1000 (CHR ''a''))"
  by (simp add: process_file_content_def ext_a_txt txt_is_text fs_thousand_def endswith_def
      MAX_FILE_SIZE_PARTIAL_def MAX_FILE_SIZE_FULL_def)

lemma fold_append_each:
  "fold (\<lambda>x acc. acc @ [g x]) xs acc0 = acc0 @ map g xs"
  by (induction xs arbitrary: acc0) simp_all

section \<open>The token estimate of the footer\<close>

text \<open>
  C1. The footer should print the total number of characters emitted divided by 4.
  The code hands \<open>estimate_tokens\<close> the decimal text of the counter, so what it prints is
  the number of digits of the counter divided by 4: a run over one text file of 1000
  characters accumulates \<open>total_chars = 1000\<close> and prints 1, where the quotient is 250.
\<close>

theorem footer_tokens_counts_digits:
  "total_chars (fst (process_files no_loader fs_thousand [(4, ''a.txt'', ''/r/a.txt'')] [])) = 1000
   \<and> footer_tokens (fst (process_files no_loader fs_thousand [(4, ''a.txt'', ''/r/a.txt'')] [])) = 1
   \<and> last (summary_footer (fst (process_files no_loader fs_thousand [(4, ''a.txt'', ''/r/a.txt'')] [])))
       = ''Estimated tokens: ~1'' @ [NL]
   \<and> 1000 div ESTIMATED_CHARS_PER_TOKEN = 250"
  by (simp add: process_files_def process_one_def basename_def content_thousand
      not_error_replicate_a stats0_def footer_tokens_def estimate_tokens_def summary_footer_def
      ESTIMATED_CHARS_PER_TOKEN_def show_nat.simps comma_fmt.simps digit_char_def)

section \<open>Small JSON files\<close>

lemma universal_newlines_no_CR: "CR \<notin> set (universal_newlines s)"
  by (induction s rule: universal_newlines.induct) (auto simp: CR_def NL_def)

lemma universal_newlines_id: "CR \<notin> set s \<Longrightarrow> universal_newlines s = s"
  by (induction s rule: universal_newlines.induct) auto

lemma universal_newlines_id_iff: "universal_newlines s = s \<longleftrightarrow> CR \<notin> set s"
  using universal_newlines_no_CR [of s] universal_newlines_id [of s] by auto

text \<open>
  C7 (as amended). A readable file of ASCII bytes whose extension is \<open>.json\<close> and whose
  size is below 5000 bytes is extracted as its text with every \<open>\r\n\<close> and every other
  \<open>\r\<close> replaced by \<open>\n\<close>, and the block written for it is the two separators around
  the \<open>FILE:\<close> line followed by that text and a newline. The text is the bytes of the
  file, unchanged, exactly when the file holds no carriage return.
\<close>

theorem small_json_verbatim:
  assumes "py_lower (splitext_ext (basename filepath)) = ''.json''"
    and "fs filepath = Some (ascii_file bytes)"
    and "is_ascii bytes"
    and "length bytes < 5000"
  shows "process_file_content jl fs filepath (basename filepath) = Some (universal_newlines bytes)
         \<and> snd (process_one jl fs (priority, rel_path, filepath) (st, out)) =
             out @ [SEPARATOR, ''FILE: '' @ rel_path @ [NL], SEPARATOR,
                    universal_newlines bytes @ [NL]]
         \<and> (universal_newlines bytes = bytes \<longleftrightarrow> CR \<notin> set bytes)"
proof -
  have "\<not> endswith (basename filepath) ''.ipynb''"
    using lower_ext_of_ipynb [of "basename filepath"] assms(1) by auto
  then have c: "process_file_content jl fs filepath (basename filepath) =
      Some (universal_newlines bytes)"
    using assms
    by (simp add: process_file_content_def MAX_FILE_SIZE_PARTIAL_def ascii_file_def)
  then show ?thesis by (simp add: process_one_def Let_def universal_newlines_id_iff)
qed

theorem small_json_verbatim_witness:
  "process_file_content no_loader fs_small_json ''/r/Conf.JSON'' ''Conf.JSON'' = Some ''[1, 2, 3]''
   \<and> snd (process_one no_loader fs_small_json (3, ''Conf.JSON'', ''/r/Conf.JSON'') (stats0, [])) =
       [SEPARATOR, ''FILE: Conf.JSON'' @ [NL], SEPARATOR, ''[1, 2, 3]'' @ [NL]]
   \<and> CR \<notin> set ''[1, 2, 3]''"
proof -
  have b: "basename ''/r/Conf.JSON'' = ''Conf.JSON''" by (simp add: basename_def)
  have e: "py_lower (splitext_ext (basename ''/r/Conf.JSON'')) = ''.json''"
    by (simp add: splitext_ext_def basename_def py_lower_def lower_char_def)
  have f: "fs_small_json ''/r/Conf.JSON'' = Some (ascii_file ''[1, 2, 3]'')"
    by (simp add: fs_small_json_def)
  have a: "is_ascii ''[1, 2, 3]''" by (simp add: is_ascii_def)
  have l: "length ''[1, 2, 3]'' < 5000" by simp
  have u: "universal_newlines ''[1, 2, 3]'' = ''[1, 2, 3]''" by (simp add: CR_def)
  show ?thesis
    using small_json_verbatim [where fs = fs_small_json and filepath = "''/r/Conf.JSON''"
        and bytes = "''[1, 2, 3]''" and jl = no_loader and priority = "3"
        and rel_path = "''Conf.JSON''" and st = stats0 and out = "[]", OF e f a l,
        unfolded u b]
    by (simp add: CR_def)
qed

text \<open>
  A \<open>.json\<close> file of 9 bytes whose two lines end in \<open>\r\n\<close> is emitted with the
  carriage returns gone: the emitted text is not the decoded bytes.
\<close>

theorem crlf_json_not_verbatim:
  "fs_crlf_json ''/r/c.json'' = Some (ascii_file crlf_bytes)
   \<and> is_ascii crlf_bytes
   \<and> fsize (ascii_file crlf_bytes) = 9
   \<and> process_file_content no_loader fs_crlf_json ''/r/c.json'' ''c.json'' =
       Some (''[1,'' @ [NL] @ ''2]'' @ [NL])
   \<and> ''[1,'' @ [NL] @ ''2]'' @ [NL] \<noteq> crlf_bytes"
proof -
  have e: "py_lower (splitext_ext ''c.json'') = ''.json''"
    by (simp add: splitext_ext_def basename_def py_lower_def lower_char_def)
  have u: "universal_newlines crlf_bytes = ''[1,'' @ [NL] @ ''2]'' @ [NL]"
    by (simp add: crlf_bytes_def CR_def NL_def)
  have a: "is_ascii crlf_bytes" by (simp add: is_ascii_def crlf_bytes_def CR_def NL_def)
  have c: "process_file_content no_loader fs_crlf_json ''/r/c.json'' ''c.json'' =
      Some (universal_newlines crlf_bytes)"
    by (simp add: process_file_content_def e fs_crlf_json_def ascii_file_def endswith_def
        MAX_FILE_SIZE_PARTIAL_def crlf_bytes_def)
  show ?thesis
    by (simp add: c u a fs_crlf_json_def) (simp add: ascii_file_def crlf_bytes_def CR_def NL_def)
qed

section \<open>The error counter\<close>

text \<open>
  C10 (as amended). After \<open>process_files\<close> the error counter is the number of collected
  files whose extracted content starts with \<open>[Error\<close>. A \<open>.json\<close> file of 5000 bytes
  or more (up to the ceiling) whose parse raises \<open>JSONDecodeError\<close> is extracted as
  \<open>[JSON parse error: ...]\<close>; it adds one to the processed counter and nothing to the
  error counter. When the parse raises any other exception the file is extracted as
  \<open>[Error reading file: ...]\<close> and adds one to both counters. A \<open>.json\<close> file below
  5000 bytes is not parsed: its text is its content, whatever it starts with.
\<close>

theorem errors_count_error_prefix:
  "errors (fst (process_files jl fs files out)) =
     length (filter (\<lambda>r. is_error_text (content_of jl fs r)) files)
   \<and> (py_lower (splitext_ext (basename filepath)) = ''.json'' \<and> fs filepath = Some f
        \<and> 5000 \<le> fsize f \<and> fsize f \<le> MAX_FILE_SIZE_PARTIAL
        \<and> read_replace f = Inr body \<and> jl body = JSONDecodeError e
      \<longrightarrow> content_of jl fs (priority, rel_path, filepath) = Some (''[JSON parse error: '' @ e @ '']'')
          \<and> processed (fst (process_one jl fs (priority, rel_path, filepath) st)) = processed (fst st) + 1
          \<and> errors (fst (process_one jl fs (priority, rel_path, filepath) st)) = errors (fst st))
   \<and> (py_lower (splitext_ext (basename filepath)) = ''.json'' \<and> fs filepath = Some f
        \<and> 5000 \<le> fsize f \<and> fsize f \<le> MAX_FILE_SIZE_PARTIAL
        \<and> read_replace f = Inr body \<and> jl body = OtherError e
      \<longrightarrow> content_of jl fs (priority, rel_path, filepath) = Some (''[Error reading file: '' @ e @ '']'')
          \<and> processed (fst (process_one jl fs (priority, rel_path, filepath) st)) = processed (fst st) + 1
          \<and> errors (fst (process_one jl fs (priority, rel_path, filepath) st)) = errors (fst st) + 1)
   \<and> (py_lower (splitext_ext (basename filepath)) = ''.json'' \<and> fs filepath = Some f
        \<and> fsize f < 5000 \<and> read_replace f = Inr body
      \<longrightarrow> content_of jl fs (priority, rel_path, filepath) = Some body)"
proof (intro conjI impI)
  show "errors (fst (process_files jl fs files out)) =
     length (filter (\<lambda>r. is_error_text (content_of jl fs r)) files)"
    by (simp add: process_files_def fold_errors stats0_def)
next
  assume a: "py_lower (splitext_ext (basename filepath)) = ''.json'' \<and> fs filepath = Some f
        \<and> 5000 \<le> fsize f \<and> fsize f \<le> MAX_FILE_SIZE_PARTIAL
        \<and> read_replace f = Inr body \<and> jl body = JSONDecodeError e"
  have "\<not> endswith (basename filepath) ''.ipynb''"
    using lower_ext_of_ipynb [of "basename filepath"] a by auto
  then show c: "content_of jl fs (priority, rel_path, filepath) = Some (''[JSON parse error: '' @ e @ '']'')"
    using a by (simp add: content_of_def process_file_content_def)
  show "processed (fst (process_one jl fs (priority, rel_path, filepath) st)) = processed (fst st) + 1"
    by (simp add: process_one_processed c)
  show "errors (fst (process_one jl fs (priority, rel_path, filepath) st)) = errors (fst st)"
    by (simp add: process_one_errors c is_error_text_def startswith_def)
next
  assume a: "py_lower (splitext_ext (basename filepath)) = ''.json'' \<and> fs filepath = Some f
        \<and> 5000 \<le> fsize f \<and> fsize f \<le> MAX_FILE_SIZE_PARTIAL
        \<and> read_replace f = Inr body \<and> jl body = OtherError e"
  have "\<not> endswith (basename filepath) ''.ipynb''"
    using lower_ext_of_ipynb [of "basename filepath"] a by auto
  then show c: "content_of jl fs (priority, rel_path, filepath) = Some (''[Error reading file: '' @ e @ '']'')"
    using a by (simp add: content_of_def process_file_content_def)
  show "processed (fst (process_one jl fs (priority, rel_path, filepath) st)) = processed (fst st) + 1"
    by (simp add: process_one_processed c)
  show "errors (fst (process_one jl fs (priority, rel_path, filepath) st)) = errors (fst st) + 1"
    by (simp add: process_one_errors c is_error_text_def startswith_def)
next
  assume a: "py_lower (splitext_ext (basename filepath)) = ''.json'' \<and> fs filepath = Some f
        \<and> fsize f < 5000 \<and> read_replace f = Inr body"
  have "\<not> endswith (basename filepath) ''.ipynb''"
    using lower_ext_of_ipynb [of "basename filepath"] a by auto
  then show "content_of jl fs (priority, rel_path, filepath) = Some body"
    using a by (simp add: content_of_def process_file_content_def MAX_FILE_SIZE_PARTIAL_def)
qed

lemma ext_bad_json: "py_lower (splitext_ext (basename ''/r/bad.json'')) = ''.json''"
  by (simp add: splitext_ext_def basename_def py_lower_def lower_char_def)

lemma ext_deep_json: "py_lower (splitext_ext (basename ''/r/deep.json'')) = ''.json''"
  by (simp add: splitext_ext_def basename_def py_lower_def lower_char_def)

lemma ext_e_json: "py_lower (splitext_ext (basename ''/r/e.json'')) = ''.json''"
  by (simp add: splitext_ext_def basename_def py_lower_def lower_char_def)

theorem errors_count_error_prefix_witness:
  "errors (fst (process_files decode_error_loader fs_bad_json [(3, ''bad.json'', ''/r/bad.json'')] [])) = 0
   \<and> content_of decode_error_loader fs_bad_json (3, ''bad.json'', ''/r/bad.json'') =
       Some ''[JSON parse error: Expecting property name enclosed in double quotes: line 1 column 2 (char 1)]''
   \<and> processed (fst (process_one decode_error_loader fs_bad_json (3, ''bad.json'', ''/r/bad.json'') (stats0, []))) = 1
   \<and> errors (fst (process_one decode_error_loader fs_bad_json (3, ''bad.json'', ''/r/bad.json'') (stats0, []))) = 0
   \<and> content_of recursion_error_loader fs_deep_json (3, ''deep.json'', ''/r/deep.json'') =
       Some ''[Error reading file: maximum recursion depth exceeded while decoding a JSON array from a unicode string]''
   \<and> errors (fst (process_one recursion_error_loader fs_deep_json (3, ''deep.json'', ''/r/deep.json'') (stats0, []))) = 1
   \<and> content_of decode_error_loader fs_error_text_json (3, ''e.json'', ''/r/e.json'') = Some ''[Error]''"
proof -
  have bad: "errors (fst (process_files decode_error_loader fs_bad_json [(3, ''bad.json'', ''/r/bad.json'')] [])) = 0
   \<and> content_of decode_error_loader fs_bad_json (3, ''bad.json'', ''/r/bad.json'') =
       Some ''[JSON parse error: Expecting property name enclosed in double quotes: line 1 column 2 (char 1)]''
   \<and> processed (fst (process_one decode_error_loader fs_bad_json (3, ''bad.json'', ''/r/bad.json'') (stats0, []))) = 1
   \<and> errors (fst (process_one decode_error_loader fs_bad_json (3, ''bad.json'', ''/r/bad.json'') (stats0, []))) = 0"
    using errors_count_error_prefix [where jl = decode_error_loader and fs = fs_bad_json
      and files = "[(3, ''bad.json'', ''/r/bad.json'')]" and out = "[]"
      and filepath = "''/r/bad.json''" and priority = "3" and rel_path = "''bad.json''"
      and st = "(stats0, [])" and body = "replicate 6000 (CHR ''{'')"
      and f = "\<lparr>fsize = 6000, read_strict = Inr (replicate 6000 (CHR ''{'')),
                 read_replace = Inr (replicate 6000 (CHR ''{''))\<rparr>"
      and e = "''Expecting property name enclosed in double quotes: line 1 column 2 (char 1)''"]
    by (simp add: ext_bad_json fs_bad_json_def decode_error_loader_def MAX_FILE_SIZE_PARTIAL_def
      is_error_text_def startswith_def stats0_def)
  have deep: "content_of recursion_error_loader fs_deep_json (3, ''deep.json'', ''/r/deep.json'') =
       Some ''[Error reading file: maximum recursion depth exceeded while decoding a JSON array from a unicode string]''
   \<and> errors (fst (process_one recursion_error_loader fs_deep_json (3, ''deep.json'', ''/r/deep.json'') (stats0, []))) = 1"
    using errors_count_error_prefix [where jl = recursion_error_loader and fs = fs_deep_json
      and files = "[]" and out = "[]"
      and filepath = "''/r/deep.json''" and priority = "3" and rel_path = "''deep.json''"
      and st = "(stats0, [])" and body = "replicate 6000 (CHR ''['')"
      and f = "\<lparr>fsize = 6000, read_strict = Inr (replicate 6000 (CHR ''['')),
                 read_replace = Inr (replicate 6000 (CHR ''[''))\<rparr>"
      and e = "''maximum recursion depth exceeded while decoding a JSON array from a unicode string''"]
    by (simp add: ext_deep_json fs_deep_json_def recursion_error_loader_def MAX_FILE_SIZE_PARTIAL_def
      stats0_def)
  have small: "content_of decode_error_loader fs_error_text_json (3, ''e.json'', ''/r/e.json'') = Some ''[Error]''"
    using errors_count_error_prefix [where jl = decode_error_loader and fs = fs_error_text_json
      and files = "[]" and out = "[]"
      and filepath = "''/r/e.json''" and priority = "3" and rel_path = "''e.json''"
      and st = "(stats0, [])" and body = "''[Error]''"
      and f = "\<lparr>fsize = 7, read_strict = Inr ''[Error]'', read_replace = Inr ''[Error]''\<rparr>"
      and e = "[]"]
    by (simp add: ext_e_json fs_error_text_json_def)
  from bad deep small show ?thesis by blast
qed

text \<open>
  A \<open>.json\<close> file of 6000 opening brackets fails to parse with \<open>RecursionError\<close>; it
  is extracted as \<open>[Error reading file: ...]\<close> and counted in the error counter. A
  \<open>.json\<close> file of 7 bytes whose text is \<open>[Error]\<close>, which is no JSON value, is
  returned unparsed and counted in the error counter as well.
\<close>

theorem failed_parse_counted_as_error:
  "content_of recursion_error_loader fs_deep_json (3, ''deep.json'', ''/r/deep.json'') =
     Some ''[Error reading file: maximum recursion depth exceeded while decoding a JSON array from a unicode string]''
   \<and> errors (fst (process_files recursion_error_loader fs_deep_json
                    [(3, ''deep.json'', ''/r/deep.json'')] [])) = 1
   \<and> processed (fst (process_files recursion_error_loader fs_deep_json
                    [(3, ''deep.json'', ''/r/deep.json'')] [])) = 1
   \<and> content_of decode_error_loader fs_error_text_json (3, ''e.json'', ''/r/e.json'') =
       Some ''[Error]''
   \<and> errors (fst (process_files decode_error_loader fs_error_text_json
                    [(3, ''e.json'', ''/r/e.json'')] [])) = 1"
proof -
  have n1: "\<not> endswith (basename ''/r/deep.json'') ''.ipynb''"
    by (simp add: endswith_def basename_def)
  have n2: "\<not> endswith (basename ''/r/e.json'') ''.ipynb''"
    by (simp add: endswith_def basename_def)
  have c1: "content_of recursion_error_loader fs_deep_json (3, ''deep.json'', ''/r/deep.json'') =
     Some ''[Error reading file: maximum recursion depth exceeded while decoding a JSON array from a unicode string]''"
    by (simp add: content_of_def process_file_content_def ext_deep_json n1 fs_deep_json_def
        recursion_error_loader_def MAX_FILE_SIZE_PARTIAL_def)
  have c2: "content_of decode_error_loader fs_error_text_json (3, ''e.json'', ''/r/e.json'') =
       Some ''[Error]''"
    by (simp add: content_of_def process_file_content_def ext_e_json n2 fs_error_text_json_def
        MAX_FILE_SIZE_PARTIAL_def)
  show ?thesis
    by (simp add: process_files_def process_one_errors process_one_processed stats0_def c1 c2
        is_error_text_def startswith_def)
qed

section \<open>Large files and skipped files\<close>

lemma digit_not_NL: "d < 10 \<Longrightarrow> digit_char d \<noteq> NL"
proof -
  assume "d < 10"
  then have "d \<in> {0,1,2,3,4,5,6,7,8,9}" by auto
  then show ?thesis by (auto simp: digit_char_def NL_def)
qed

lemma show_nat_no_NL: "NL \<notin> set (show_nat n)"
proof (induction n rule: show_nat.induct)
  case (1 n)
  show ?case
  proof (cases "n < 10")
    case True
    then show ?thesis using digit_not_NL [of n] by (simp add: show_nat.simps)
  next
    case False
    then show ?thesis using 1 digit_not_NL [of "n mod 10"]
      by (subst show_nat.simps) simp
  qed
qed

lemma fmt1_no_NL: "NL \<notin> set (fmt1 n d)"
  using digit_not_NL [of "round_half_even (10 * n) d mod 10"]
  by (simp add: fmt1_def Let_def show_nat_no_NL [unfolded NL_def] NL_def)

lemma format_size_loop_no_NL:
  "\<forall>u \<in> set units. NL \<notin> set u \<Longrightarrow> NL \<notin> set (format_size_loop units n d)"
  by (induction units arbitrary: d)
    (auto simp: fmt1_no_NL [unfolded NL_def] show_nat_no_NL [unfolded NL_def] NL_def)

lemma format_size_no_NL: "NL \<notin> set (format_size n)"
  unfolding format_size_def by (rule format_size_loop_no_NL) (simp add: NL_def)

text \<open>
  C4 (as amended). A file larger than 200,000 bytes is extracted as the one line
  \<open>[File too large: ... - skipped]\<close>. Extraction gives no content exactly when the size
  cannot be read, or when the size is within the ceiling and no rule takes the file: its
  name does not end in \<open>.ipynb\<close>, its extension is neither \<open>.jsonl\<close> nor a text
  extension (which include \<open>.json\<close>, \<open>.yaml\<close>, \<open>.yml\<close>, \<open>.toml\<close>), its name is no
  priority file, and it has an extension. The skipped counter is the number of collected
  files with no content, the processed counter the number of the others.
\<close>

theorem skipped_iff_no_content:
  "(fs filepath = Some f \<and> fsize f > MAX_FILE_SIZE_PARTIAL \<longrightarrow>
      process_file_content jl fs filepath filename =
        Some (''[File too large: '' @ format_size (fsize f) @ '' - skipped]'')
      \<and> NL \<notin> set (''[File too large: '' @ format_size (fsize f) @ '' - skipped]''))
   \<and> (process_file_content jl fs filepath filename = None \<longleftrightarrow>
        (case fs filepath of
           None \<Rightarrow> True
         | Some f \<Rightarrow>
             fsize f \<le> MAX_FILE_SIZE_PARTIAL \<and> \<not> endswith filename ''.ipynb''
             \<and> py_lower (splitext_ext filename) \<noteq> ''.jsonl''
             \<and> py_lower (splitext_ext filename) \<notin> TEXT_EXTENSIONS
             \<and> filename \<notin> PRIORITY_FILES
             \<and> py_lower (splitext_ext filename) \<noteq> []))
   \<and> skipped (fst (process_files jl fs files out)) =
       length (filter (\<lambda>r. content_of jl fs r = None) files)
   \<and> processed (fst (process_files jl fs files out)) =
       length (filter (\<lambda>r. content_of jl fs r \<noteq> None) files)"
proof (intro conjI impI)
  assume "fs filepath = Some f \<and> fsize f > MAX_FILE_SIZE_PARTIAL"
  then show "process_file_content jl fs filepath filename =
        Some (''[File too large: '' @ format_size (fsize f) @ '' - skipped]'')"
    by (simp add: process_file_content_def)
next
  show "NL \<notin> set (''[File too large: '' @ format_size (fsize f) @ '' - skipped]'')"
    by (simp add: format_size_no_NL [unfolded NL_def] NL_def)
next
  have t: "''.json'' \<in> TEXT_EXTENSIONS" "''.yaml'' \<in> TEXT_EXTENSIONS"
    "''.yml'' \<in> TEXT_EXTENSIONS" "''.toml'' \<in> TEXT_EXTENSIONS"
    by (simp_all add: TEXT_EXTENSIONS_def)
  show "process_file_content jl fs filepath filename = None \<longleftrightarrow>
        (case fs filepath of
           None \<Rightarrow> True
         | Some f \<Rightarrow>
             fsize f \<le> MAX_FILE_SIZE_PARTIAL \<and> \<not> endswith filename ''.ipynb''
             \<and> py_lower (splitext_ext filename) \<noteq> ''.jsonl''
             \<and> py_lower (splitext_ext filename) \<notin> TEXT_EXTENSIONS
             \<and> filename \<notin> PRIORITY_FILES
             \<and> py_lower (splitext_ext filename) \<noteq> [])"
    using t unfolding process_file_content_def Let_def
    by (auto split: option.splits sum.splits load_result.splits)
next
  show "skipped (fst (process_files jl fs files out)) =
       length (filter (\<lambda>r. content_of jl fs r = None) files)"
    by (simp add: process_files_def fold_skipped stats0_def)
next
  show "processed (fst (process_files jl fs files out)) =
       length (filter (\<lambda>r. content_of jl fs r \<noteq> None) files)"
    by (simp add: process_files_def fold_processed stats0_def)
qed


lemma size_200001: "format_size 200001 = ''195.3KB''"
  by (simp add: format_size_def fmt1_def round_half_even_def show_nat.simps digit_char_def)

theorem skipped_iff_no_content_witness:
  "process_file_content no_loader fs_big ''/r/big.txt'' ''big.txt'' =
     Some ''[File too large: 195.3KB - skipped]''
   \<and> NL \<notin> set ''[File too large: 195.3KB - skipped]''
   \<and> process_file_content no_loader fs_big ''/r/big.txt'' ''big.txt'' \<noteq> None
   \<and> skipped (fst (process_files no_loader fs_big [(4, ''big.txt'', ''/r/big.txt'')] [])) = 0
   \<and> processed (fst (process_files no_loader fs_big [(4, ''big.txt'', ''/r/big.txt'')] [])) = 1"
proof -
  have b: "basename ''/r/big.txt'' = ''big.txt''" by (simp add: basename_def)
  have f: "fs_big ''/r/big.txt'' = Some \<lparr>fsize = 200001,
      read_strict = Inr (replicate 200001 (CHR ''a'')),
      read_replace = Inr (replicate 200001 (CHR ''a''))\<rparr>"
    by (simp add: fs_big_def)
  show ?thesis
    using skipped_iff_no_content [where fs = fs_big and jl = no_loader
        and filepath = "''/r/big.txt''" and filename = "''big.txt''"
        and files = "[(4, ''big.txt'', ''/r/big.txt'')]" and out = "[]"
        and f = "\<lparr>fsize = 200001, read_strict = Inr (replicate 200001 (CHR ''a'')),
                 read_replace = Inr (replicate 200001 (CHR ''a''))\<rparr>"]
    by (simp add: f b size_200001 MAX_FILE_SIZE_PARTIAL_def content_of_def)
qed

text \<open>
  A file named \<open>notes.xyz\<close>, of readable size and with an extension outside the skip
  set, is counted as skipped.
\<close>

theorem unknown_extension_counted_skipped:
  "skipped (fst (process_files no_loader fs_unknown_ext [(4, ''notes.xyz'', ''/r/notes.xyz'')] [])) = 1
   \<and> py_lower (splitext_ext ''notes.xyz'') \<notin> EXTENSIONS_TO_SKIP
   \<and> fs_unknown_ext ''/r/notes.xyz'' \<noteq> None"
proof -
  have e: "py_lower (splitext_ext ''notes.xyz'') = ''.xyz''"
    by (simp add: splitext_ext_def basename_def py_lower_def lower_char_def)
  have b: "basename ''/r/notes.xyz'' = ''notes.xyz''" by (simp add: basename_def)
  have t: "''.xyz'' \<notin> TEXT_EXTENSIONS" by (simp add: TEXT_EXTENSIONS_def)
  have p: "''notes.xyz'' \<notin> PRIORITY_FILES" by (simp add: PRIORITY_FILES_def)
  have s: "''.xyz'' \<notin> EXTENSIONS_TO_SKIP" by (simp add: EXTENSIONS_TO_SKIP_def)
  have c: "process_file_content no_loader fs_unknown_ext ''/r/notes.xyz'' ''notes.xyz'' = None"
    by (simp add: process_file_content_def e t p fs_unknown_ext_def endswith_def
        MAX_FILE_SIZE_PARTIAL_def)
  show ?thesis
    by (simp add: process_files_def process_one_def b c e s stats0_def fs_unknown_ext_def)
qed

section \<open>Configuration files\<close>










section \<open>Notebooks\<close>

lemma join_items_strs: "join_items i (map JStr ss) = Inr ss"
  by (induction ss arbitrary: i) simp_all

lemma join_values_strs: "join_values sep (map JStr ss) = Inr (py_join sep ss)"
  by (simp add: join_values_def join_items_strs)

lemma py_join_empty_sep: "py_join [] ss = concat ss"
  by (induction "[] :: string" ss rule: py_join.induct) simp_all

lemma join_items_all_str:
  "\<forall>x \<in> set xs. is_str x \<Longrightarrow> join_items i xs = Inr (map str_of xs)"
proof (induction xs arbitrary: i)
  case Nil
  then show ?case by simp
next
  case (Cons x xs)
  then show ?case by (cases x) simp_all
qed

lemma fold_append_lines:
  "fold (\<lambda>line parts. parts @ [g line]) ls acc = acc @ map g ls"
  by (induction ls arbitrary: acc) simp_all

lemma join_str_list:
  "\<forall>x \<in> set xs. is_str x \<Longrightarrow> join_values [] xs = Inr (concat (map str_of xs))"
  by (simp add: join_values_def join_items_all_str py_join_empty_sep)

lemma nb_cell_wf:
  assumes "wf_cell c"
  shows "nb_cell i c parts = Inr (parts @ map JStr (cell_block i c))"
proof (cases c)
  case (JDict kvs)
  show ?thesis
  proof (cases "map_of kvs ''source''")
    case None
    then show ?thesis
      using JDict by (simp add: nb_cell_def cell_block_def join_values_def fold_append_lines)
  next
    case (Some s)
    then have ws: "wf_source s" using assms JDict by simp
    show ?thesis
    proof (cases s)
      case (JStr t)
      then show ?thesis
        using JDict Some by (simp add: nb_cell_def cell_block_def fold_append_lines)
    next
      case (JList xs)
      then have "join_values [] xs = Inr (concat (map str_of xs))"
        using ws join_str_list by simp
      then show ?thesis
        using JDict Some JList by (simp add: nb_cell_def cell_block_def fold_append_lines)
    qed (use ws in simp_all)
  qed
qed (use assms in simp_all)

lemma nb_loop_wf:
  "\<forall>c \<in> set cells. wf_cell c \<Longrightarrow>
     nb_loop i cells parts =
       Inr (parts @ map JStr (concat (map (\<lambda>(j, c). cell_block j c) (enumerate i cells))))"
  by (induction cells arbitrary: i parts) (simp_all add: nb_cell_wf)

lemma cells_of_type_wf:
  "\<forall>c \<in> set cells. wf_cell c \<Longrightarrow> t \<noteq> ''unknown'' \<Longrightarrow>
     cells_of_type t cells = Inr (filter (\<lambda>c. cell_type_of c = JStr t) cells)"
proof (induction cells)
  case Nil
  then show ?case by simp
next
  case (Cons c cells)
  then obtain kvs where "c = JDict kvs" by (cases c) simp_all
  then show ?case using Cons by (auto split: option.splits)
qed

lemma nb_render_wf:
  assumes "wf_notebook notebook"
  shows "nb_render notebook =
           Inr (py_join [NL] (nb_header (nb_cells notebook) #
                  concat (map (\<lambda>(i, c). cell_block i c) (enumerate 0 (nb_cells notebook)))))"
proof -
  define cells where "cells = nb_cells notebook"
  define blocks where "blocks = concat (map (\<lambda>(i, c). cell_block i c) (enumerate 0 cells))"
  obtain kvs where nb: "notebook = JDict kvs" using assms by (cases notebook) simp_all
  have wf: "\<forall>c \<in> set cells. wf_cell c"
    using assms nb unfolding cells_def by (auto split: option.splits json.splits)
  have it: "py_get notebook ''cells'' (JList []) = Inr (JList cells)"
    using assms nb unfolding cells_def by (auto split: option.splits json.splits)
  have c1: "cells_of_type ''code'' cells = Inr (filter (\<lambda>c. cell_type_of c = JStr ''code'') cells)"
    by (rule cells_of_type_wf [OF wf]) simp
  have c2: "cells_of_type ''markdown'' cells =
      Inr (filter (\<lambda>c. cell_type_of c = JStr ''markdown'') cells)"
    by (rule cells_of_type_wf [OF wf]) simp
  have lp: "nb_loop 0 cells [JStr (nb_header cells)] = Inr (map JStr (nb_header cells # blocks))"
    using nb_loop_wf [OF wf, of 0 "[JStr (nb_header cells)]"] by (simp add: blocks_def)
  have jv: "join_values [NL] (map JStr (nb_header cells # blocks)) =
      Inr (py_join [NL] (nb_header cells # blocks))"
    by (rule join_values_strs)
  have "nb_render notebook = Inr (py_join [NL] (nb_header cells # blocks))"
    unfolding nb_render_def
    by (simp only: it sum.simps py_iter.simps c1 c2 nb_header_def [symmetric] lp jv)
  then show ?thesis by (simp only: cells_def blocks_def)
qed


text \<open>
  C2 (as amended). For a notebook file that reads and loads as a well-formed notebook,
  the extracted text is the header line and the blocks of the cells in order, joined by
  newlines. A code cell contributes its marker line and its whole source, unprefixed; a
  markdown cell whose source has fewer than 500 characters contributes its marker line
  and each line of its source prefixed with \<open>#\<close> and a space; a markdown cell of 500
  characters or more, and a cell of any other type, contributes nothing.
\<close>

theorem notebook_cells_rendered:
  assumes "read_strict f = Inr body"
    and "jl body = Loaded notebook"
    and "wf_notebook notebook"
  shows "extract_ipynb_code jl f =
           py_join [NL] (nb_header (nb_cells notebook) #
             concat (map (\<lambda>(i, c). cell_block i c) (enumerate 0 (nb_cells notebook))))"
  using assms by (simp add: extract_ipynb_code_def nb_render_wf)

lemma enumerate_three: "enumerate 0 [a, b, c] = [(0, a), (1, b), (2, c)]"
  by (simp add: enumerate_eq_zip upt_rec)

lemma nb_three_cells: "nb_cells nb_three = 
     [JDict [(''cell_type'', JStr ''markdown''), (''source'', JList [JStr ''Title'', JStr [NL], JStr ''more''])],
      JDict [(''cell_type'', JStr ''markdown''), (''source'', JStr (replicate 600 (CHR ''m'')))],
      JDict [(''cell_type'', JStr ''code''), (''source'', JList [JStr ''x = 1''])]]"
  by (simp add: nb_three_def)

lemma nb_three_header: "nb_header (nb_cells nb_three) = ''# Jupyter Notebook: 1 code cells, 2 markdown cells'' @ [NL]"
  by (simp add: nb_three_cells nb_header_def show_nat.simps digit_char_def)

lemma nb_three_block0: "cell_block 0 (JDict [(''cell_type'', JStr ''markdown''), (''source'', JList [JStr ''Title'', JStr [NL], JStr ''more''])])
   = [[NL] @ ''# --- Cell 1 [Markdown] ---'', ''# Title'', ''# more'']"
  by (simp add: cell_block_def show_nat.simps digit_char_def NL_def)

lemma nb_three_block1: "cell_block 1 (JDict [(''cell_type'', JStr ''markdown''), (''source'', JStr (replicate 600 (CHR ''m'')))]) = []"
  by (simp add: cell_block_def)

lemma nb_three_block2: "cell_block 2 (JDict [(''cell_type'', JStr ''code''), (''source'', JList [JStr ''x = 1''])])
   = [[NL] @ ''# --- Cell 3 [Code] ---'', ''x = 1'']"
  by (simp add: cell_block_def show_nat.simps digit_char_def)


lemma nb_three_blocks:
  "concat (map (\<lambda>(i, c). cell_block i c) (enumerate 0 (nb_cells nb_three))) =
     [[NL] @ ''# --- Cell 1 [Markdown] ---'', ''# Title'', ''# more'',
      [NL] @ ''# --- Cell 3 [Code] ---'', ''x = 1'']"
  by (simp only: nb_three_cells enumerate_three list.map prod.case nb_three_block0 nb_three_block1 nb_three_block2
      concat.simps append.simps)

theorem notebook_cells_rendered_witness:
  "extract_ipynb_code load_three file_three =
     py_join [NL]
       [''# Jupyter Notebook: 1 code cells, 2 markdown cells'' @ [NL],
        [NL] @ ''# --- Cell 1 [Markdown] ---'', ''# Title'', ''# more'',
        [NL] @ ''# --- Cell 3 [Code] ---'', ''x = 1'']"
proof -
  have w: "wf_notebook nb_three" by (simp add: nb_three_def)
  obtain t where r: "read_strict file_three = Inr t"
    by (simp add: file_three_def Let_def)
  have l: "load_three t = Loaded nb_three" by (simp only: load_three_def)
  show ?thesis
    using notebook_cells_rendered [where jl = load_three and f = file_three and body = t
        and notebook = nb_three, OF r l w]
    by (simp only: nb_three_header nb_three_blocks)
qed


text \<open>
  A markdown cell of exactly 500 characters is not longer than 500 characters and is
  left out: only the header line is returned.
\<close>

theorem markdown_500_omitted:
  "extract_ipynb_code load_md500 file_md500 =
     ''# Jupyter Notebook: 0 code cells, 1 markdown cells'' @ [NL]
   \<and> \<not> 500 < length (replicate 500 (CHR ''m''))"
proof -
  have s1: "show_nat 0 = ''0''" "show_nat (Suc 0) = ''1''"
    by (simp_all add: show_nat.simps digit_char_def)
  have "nb_render nb_md500 = Inr (''# Jupyter Notebook: 0 code cells, 1 markdown cells'' @ [NL])"
    by (simp add: nb_render_def nb_md500_def nb_cell_def join_values_def s1)
  then show ?thesis
    by (simp add: extract_ipynb_code_def file_md500_def load_md500_def Let_def)
qed

section \<open>The bounded JSON summary\<close>

lemma summarize_dict:
  assumes "d < md" and "kvs \<noteq> []"
  shows "summarize_json_structure (JDict kvs) md d mi ind =
        py_join [NL]
          ([''{''] @
           map (\<lambda>kv. (ind @ ''  '') @ [DQ] @ fst kv @ [DQ] @ '': '' @
                      summarize_json_structure (snd kv) md (d + 1) mi (ind @ ''  '') @ '','')
               (take mi kvs) @
           (if length kvs > mi
            then [(ind @ ''  '') @ ''... +'' @ show_nat (length kvs - mi) @ '' more keys''] else []) @
           [ind @ ''}''])"
  using assms
  by (subst summarize_json_structure.simps) (simp add: fold_append_each Let_def)

lemma summarize_list:
  assumes "d < md" and "xs \<noteq> []" and "\<not> (length xs \<le> 3 \<and> (\<forall>x \<in> set xs. is_scalar x))"
  shows "summarize_json_structure (JList xs) md d mi ind =
        py_join [NL]
          ([''[ // '' @ show_nat (length xs) @ '' items''] @
           map (\<lambda>item. (ind @ ''  '') @
                      summarize_json_structure item md (d + 1) mi (ind @ ''  '') @ '','')
               (take mi xs) @
           (if length xs > mi
            then [(ind @ ''  '') @ ''... +'' @ show_nat (length xs - mi) @ '' more items''] else []) @
           [ind @ '']''])"
  using assms
  by (subst summarize_json_structure.simps) (auto simp: fold_append_each Let_def)

lemma summarize_inline:
  assumes "d < md" and "ys \<noteq> []" and "length ys \<le> 3" and "\<forall>y \<in> set ys. is_scalar y"
  shows "summarize_json_structure (JList ys) md d mi ind =
        ''['' @ py_join '', '' (map py_repr ys) @ '']''"
  using assms by (subst summarize_json_structure.simps) simp

lemma summarize_empty:
  assumes "d < md"
  shows "summarize_json_structure (JDict []) md d mi ind = ''{}''"
    and "summarize_json_structure (JList []) md d mi ind = ''[]''"
  using assms by (subst summarize_json_structure.simps, simp)+

lemma summarize_at_limit:
  assumes "md \<le> d"
  shows "summarize_json_structure (JDict kvs) md d mi ind =
           ''{...} ('' @ show_nat (length kvs) @ '' keys)''"
    and "summarize_json_structure (JList xs) md d mi ind =
           ''[...] ('' @ show_nat (length xs) @ '' items)''"
    and "is_scalar v \<Longrightarrow> summarize_json_structure v md d mi ind = take 50 (py_repr v)"
proof -
  show "summarize_json_structure (JDict kvs) md d mi ind =
           ''{...} ('' @ show_nat (length kvs) @ '' keys)''"
    using assms by (subst summarize_json_structure.simps) simp
  show "summarize_json_structure (JList xs) md d mi ind =
           ''[...] ('' @ show_nat (length xs) @ '' items)''"
    using assms by (subst summarize_json_structure.simps) simp
  show "is_scalar v \<Longrightarrow> summarize_json_structure v md d mi ind = take 50 (py_repr v)"
    using assms by (subst summarize_json_structure.simps) (cases v; simp add: is_scalar_def)
qed

lemma summarize_str:
  assumes "d < md"
  shows "summarize_json_structure (JStr s) md d mi ind =
           (if length s > 60 then [DQ] @ take 60 s @ ''...'' @ [DQ] else repr_str s)"
  using assms by (subst summarize_json_structure.simps) simp

lemma summarize_other:
  assumes "d < md" and "is_scalar v" and "\<not> is_str v"
  shows "summarize_json_structure v md d mi ind = py_repr v"
  using assms by (subst summarize_json_structure.simps) (cases v; simp add: is_scalar_def)

lemma repr_char_a: "repr_char SQ (CHR ''a'') = ''a''"
  by (simp add: repr_char_def SQ_def BSL_def)

lemma repr_str_replicate_a:
  "repr_str (replicate n (CHR ''a'')) = [SQ] @ replicate n (CHR ''a'') @ [SQ]"
proof -
  have c: "concat (replicate n ''a'') = replicate n (CHR ''a'')"
    by (induction n) simp_all
  have q: "SQ \<notin> set (replicate n (CHR ''a''))" by (simp add: SQ_def)
  show ?thesis
    by (simp only: repr_str_def Let_def q map_replicate repr_char_a c simp_thms if_False)
qed

text \<open>
  C8 (as amended). With the limits the extractor passes (depth 4, 5 items): below depth
  4 a non-empty object is rendered as \<open>{\<close>, its first 5 pairs with the values summarized
  one level deeper, a note counting the remaining keys when there are more than 5, and
  \<open>}\<close>; a non-empty array likewise with its first 5 items, except that an array of at
  most 3 scalars is rendered inline by \<open>repr\<close>, its strings whole; a string that is
  itself summarized below depth 4 is cut to 60 characters followed by an ellipsis, in
  double quotes, when it is longer than 60 characters, and rendered by \<open>repr\<close>
  otherwise. At depth 4 and beyond an object or array is only a count, and a scalar is
  the first 50 characters of its \<open>repr\<close>.
\<close>

theorem bounded_summary_shape:
  "(d < 4 \<and> kvs \<noteq> [] \<longrightarrow>
      summarize_json_structure (JDict kvs) 4 d 5 ind =
        py_join [NL]
          ([''{''] @
           map (\<lambda>kv. (ind @ ''  '') @ [DQ] @ fst kv @ [DQ] @ '': '' @
                      summarize_json_structure (snd kv) 4 (d + 1) 5 (ind @ ''  '') @ '','')
               (take 5 kvs) @
           (if length kvs > 5
            then [(ind @ ''  '') @ ''... +'' @ show_nat (length kvs - 5) @ '' more keys''] else []) @
           [ind @ ''}'']))
   \<and> (d < 4 \<and> xs \<noteq> [] \<and> \<not> (length xs \<le> 3 \<and> (\<forall>x \<in> set xs. is_scalar x)) \<longrightarrow>
      summarize_json_structure (JList xs) 4 d 5 ind =
        py_join [NL]
          ([''[ // '' @ show_nat (length xs) @ '' items''] @
           map (\<lambda>item. (ind @ ''  '') @
                      summarize_json_structure item 4 (d + 1) 5 (ind @ ''  '') @ '','')
               (take 5 xs) @
           (if length xs > 5
            then [(ind @ ''  '') @ ''... +'' @ show_nat (length xs - 5) @ '' more items''] else []) @
           [ind @ '']'']))
   \<and> (d < 4 \<and> ys \<noteq> [] \<and> length ys \<le> 3 \<and> (\<forall>y \<in> set ys. is_scalar y) \<longrightarrow>
      summarize_json_structure (JList ys) 4 d 5 ind =
        ''['' @ py_join '', '' (map py_repr ys) @ '']'')
   \<and> (d < 4 \<longrightarrow>
      summarize_json_structure (JDict []) 4 d 5 ind = ''{}''
      \<and> summarize_json_structure (JList []) 4 d 5 ind = ''[]''
      \<and> summarize_json_structure (JStr s) 4 d 5 ind =
          (if length s > 60 then [DQ] @ take 60 s @ ''...'' @ [DQ] else repr_str s)
      \<and> (is_scalar v \<and> \<not> is_str v \<longrightarrow> summarize_json_structure v 4 d 5 ind = py_repr v))
   \<and> (4 \<le> e \<longrightarrow>
      summarize_json_structure (JDict kvs) 4 e 5 ind =
        ''{...} ('' @ show_nat (length kvs) @ '' keys)''
      \<and> summarize_json_structure (JList xs) 4 e 5 ind =
        ''[...] ('' @ show_nat (length xs) @ '' items)''
      \<and> (is_scalar v \<longrightarrow> summarize_json_structure v 4 e 5 ind = take 50 (py_repr v)))"
proof (intro conjI impI; (elim conjE)?)
  show "d < 4 \<Longrightarrow> ys \<noteq> [] \<Longrightarrow> length ys \<le> 3 \<Longrightarrow> \<forall>y \<in> set ys. is_scalar y \<Longrightarrow>
      summarize_json_structure (JList ys) 4 d 5 ind =
        ''['' @ py_join '', '' (map py_repr ys) @ '']''"
    by (rule summarize_inline)
qed (simp_all only: summarize_dict summarize_list summarize_empty
      summarize_at_limit summarize_str summarize_other not_False_eq_True)

theorem bounded_summary_shape_witness:
  "summarize_json_structure (JList [JInt 1, JInt 2, JInt 3]) 4 0 5 [] = ''[1, 2, 3]''
   \<and> summarize_json_structure
        (JDict [(''k'', JStr (replicate 61 (CHR ''a''))), (''n'', JInt 7)]) 4 0 5 [] =
       py_join [NL]
         [''{'',
          ''  '' @ [DQ] @ ''k'' @ [DQ] @ '': '' @ [DQ] @ replicate 60 (CHR ''a'') @ ''...'' @ [DQ] @ '','',
          ''  '' @ [DQ] @ ''n'' @ [DQ] @ '': 7,'',
          ''}'']
   \<and> summarize_json_structure
        (JList [JInt 1, JInt 2, JInt 3, JInt 4, JInt 5, JInt 7]) 4 0 5 [] =
       py_join [NL]
         [''[ // 6 items'', ''  1,'', ''  2,'', ''  3,'', ''  4,'', ''  5,'',
          ''  ... +1 more items'', '']'']
   \<and> summarize_json_structure
        (JDict [(''k'', JStr (replicate 61 (CHR ''a''))), (''n'', JInt 7)]) 4 4 5 [] =
       ''{...} (2 keys)''"
proof (intro conjI)
  show "summarize_json_structure (JList [JInt 1, JInt 2, JInt 3]) 4 0 5 [] = ''[1, 2, 3]''"
    using bounded_summary_shape [where d = "0"
        and e = "4"
        and ind = "[]"
        and kvs = "[]"
        and xs = "[]"
        and ys = "[JInt 1, JInt 2, JInt 3]"
        and s = "[]"
        and v = JNull]
    by (simp add: is_scalar_def show_int_def show_nat.simps digit_char_def)
next
  have i: "summarize_json_structure (JStr (replicate 61 (CHR ''a''))) 4 (0 + 1) 5 ([] @ ''  '') =
      [DQ] @ replicate 60 (CHR ''a'') @ ''...'' @ [DQ]"
    by (simp add: summarize_str)
  have j: "summarize_json_structure (JInt 7) 4 (0 + 1) 5 ([] @ ''  '') = ''7''"
    by (simp add: summarize_other is_scalar_def show_int_def show_nat.simps digit_char_def)
  show "summarize_json_structure
        (JDict [(''k'', JStr (replicate 61 (CHR ''a''))), (''n'', JInt 7)]) 4 0 5 [] =
       py_join [NL]
         [''{'',
          ''  '' @ [DQ] @ ''k'' @ [DQ] @ '': '' @ [DQ] @ replicate 60 (CHR ''a'') @ ''...'' @ [DQ] @ '','',
          ''  '' @ [DQ] @ ''n'' @ [DQ] @ '': 7,'',
          ''}'']"
    using bounded_summary_shape [where d = "0"
        and e = "4"
        and ind = "[]"
        and kvs = "[(''k'', JStr (replicate 61 (CHR ''a''))), (''n'', JInt 7)]"
        and xs = "[]"
        and ys = "[]"
        and s = "[]"
        and v = JNull]
    by (simp add: i [simplified] j [simplified])
next
  have k: "summarize_json_structure (JInt n) 4 (Suc 0) 5 ''  '' = py_repr (JInt n)" for n
    by (simp add: summarize_other is_scalar_def)
  show "summarize_json_structure
        (JList [JInt 1, JInt 2, JInt 3, JInt 4, JInt 5, JInt 7]) 4 0 5 [] =
       py_join [NL]
         [''[ // 6 items'', ''  1,'', ''  2,'', ''  3,'', ''  4,'', ''  5,'',
          ''  ... +1 more items'', '']'']"
    using bounded_summary_shape [where d = "0"
        and e = "4"
        and ind = "[]"
        and kvs = "[]"
        and xs = "[JInt 1, JInt 2, JInt 3, JInt 4, JInt 5, JInt 7]"
        and ys = "[]"
        and s = "[]"
        and v = JNull]
    by (simp add: k show_int_def show_nat.simps digit_char_def)
next
  show "summarize_json_structure
        (JDict [(''k'', JStr (replicate 61 (CHR ''a''))), (''n'', JInt 7)]) 4 4 5 [] =
       ''{...} (2 keys)''"
    using bounded_summary_shape [where d = "0"
        and e = "4"
        and ind = "[]"
        and kvs = "[(''k'', JStr (replicate 61 (CHR ''a''))), (''n'', JInt 7)]"
        and xs = "[]"
        and ys = "[]"
        and s = "[]"
        and v = JNull]
    by (simp add: show_nat.simps digit_char_def)
qed

text \<open>
  A string of 61 characters inside an array of one item is rendered whole, without an
  ellipsis.
\<close>

theorem long_string_in_short_array_shown_whole:
  "summarize_json_structure (JList [JStr (replicate 61 (CHR ''a''))]) 4 0 5 [] =
     ''['' @ [SQ] @ replicate 61 (CHR ''a'') @ [SQ] @ '']''
   \<and> 60 < length (replicate 61 (CHR ''a''))"
proof -
  have "summarize_json_structure (JList [JStr (replicate 61 (CHR ''a''))]) 4 0 5 [] =
      ''['' @ py_join '', '' (map py_repr [JStr (replicate 61 (CHR ''a''))]) @ '']''"
    by (rule summarize_inline) (simp_all add: is_scalar_def)
  then show ?thesis by (simp add: repr_str_replicate_a)
qed

section \<open>The loops of the tree builder in closed form\<close>

lemma fst_add_line [simp]: "fst (add_line l st) = fst st @ [l]"
  by (simp add: add_line_def)

lemma snd_add_line [simp]: "snd (add_line l st) = snd st"
  by (simp add: add_line_def)

lemma fst_add_stat [simp]: "fst (add_stat k n st) = fst st"
  by (simp add: add_stat_def)


















section \<open>Summarized directories\<close>









section \<open>Listed directories\<close>














section \<open>Determinism of the tree\<close>

lemma canon_listing_simps [simp]:
  "canon_listing None = None"
  "canon_listing (Some es) = Some (sort_key fst (map (\<lambda>e. (fst e, canon (snd e))) es))"
  by (simp_all add: canon_listing_def)

lemma canon_Dir: "canon (Dir l) = Dir (canon_listing l)"
  by (cases l) simp_all

lemma distinct_fst_sort_key:
  "distinct (map fst ys) \<Longrightarrow> distinct (map fst (sort_key fst ys))"
  by (simp add: distinct_map)

lemma map_fst_canon_entries:
  "map fst (map (\<lambda>e. (fst e, canon (snd e))) es) = map fst es"
  by (simp add: comp_def)

lemma canon_names:
  assumes "distinct (map fst es)"
  shows "sort (map fst (sort_key fst (map (\<lambda>e. (fst e, canon (snd e))) es))) = sort (map fst es)"
proof (rule sorted_distinct_set_unique)
  have d: "distinct (map fst (map (\<lambda>e. (fst e, canon (snd e))) es))"
    using assms by (simp only: map_fst_canon_entries)
  show "distinct (sort (map fst (sort_key fst (map (\<lambda>e. (fst e, canon (snd e))) es))))"
    using distinct_fst_sort_key [OF d] by simp
  show "distinct (sort (map fst es))" using assms by simp
  have "set (map fst (sort_key fst (map (\<lambda>e. (fst e, canon (snd e))) es))) =
        set (map fst (map (\<lambda>e. (fst e, canon (snd e))) es))"
    by (simp only: set_map set_sort)
  then show "set (sort (map fst (sort_key fst (map (\<lambda>e. (fst e, canon (snd e))) es)))) =
        set (sort (map fst es))"
    by (simp only: set_sort map_fst_canon_entries)
qed simp_all

lemma canon_map_of:
  assumes "distinct (map fst es)"
  shows "map_of (sort_key fst (map (\<lambda>e. (fst e, canon (snd e))) es)) n =
           map_option canon (map_of es n)"
proof -
  have d: "distinct (map fst (map (\<lambda>e. (fst e, canon (snd e))) es))"
    using assms by (simp only: map_fst_canon_entries)
  have "map_of (sort_key fst (map (\<lambda>e. (fst e, canon (snd e))) es)) =
        map_of (map (\<lambda>e. (fst e, canon (snd e))) es)"
    using map_of_inject_set [OF distinct_fst_sort_key [OF d] d] by simp
  moreover have "map_of (map (\<lambda>e. (fst e, canon (snd e))) es) n = map_option canon (map_of es n)"
    by (induction es) auto
  ultimately show ?thesis by simp
qed

lemma canon_is_dir:
  "distinct (map fst es) \<Longrightarrow>
     is_dir (sort_key fst (map (\<lambda>e. (fst e, canon (snd e))) es)) = is_dir es"
proof (rule ext)
  fix n
  assume d: "distinct (map fst es)"
  show "is_dir (sort_key fst (map (\<lambda>e. (fst e, canon (snd e))) es)) n = is_dir es n"
  proof (cases "map_of es n")
    case None
    then show ?thesis by (simp add: is_dir_def canon_map_of [OF d])
  next
    case (Some nd)
    then show ?thesis
      by (cases nd) (simp_all add: is_dir_def canon_map_of [OF d] canon_Dir)
  qed
qed

lemma canon_getsize:
  "distinct (map fst es) \<Longrightarrow>
     getsize (sort_key fst (map (\<lambda>e. (fst e, canon (snd e))) es)) = getsize es"
proof (rule ext)
  fix n
  assume d: "distinct (map fst es)"
  show "getsize (sort_key fst (map (\<lambda>e. (fst e, canon (snd e))) es)) n = getsize es n"
  proof (cases "map_of es n")
    case None
    then show ?thesis by (simp add: getsize_def canon_map_of [OF d])
  next
    case (Some nd)
    then show ?thesis
      by (cases nd) (simp_all add: getsize_def canon_map_of [OF d] canon_Dir)
  qed
qed

lemma canon_listed:
  assumes "distinct (map fst es)"
  shows "listed_dirs env (sort_key fst (map (\<lambda>e. (fst e, canon (snd e))) es)) = listed_dirs env es"
    and "listed_files env (sort_key fst (map (\<lambda>e. (fst e, canon (snd e))) es)) = listed_files env es"
  by (simp_all only: listed_dirs_def listed_files_def canon_names [OF assms]
      canon_is_dir [OF assms])

lemma render_files_getsize:
  "getsize es' = getsize es \<Longrightarrow>
     render_files es' dirs files p st = render_files es dirs files p st"
  by (simp only: render_files_def)

lemma summarize_branch_getsize:
  "getsize es' = getsize es \<Longrightarrow>
     summarize_branch es' files p st = summarize_branch es files p st"
  by (simp only: summarize_branch_def)

lemma walk_dir_unfold:
  assumes "dir_name \<notin> summarize_dirs env"
  shows "walk_dir env is_root dir_name (Some es) prefix is_last st =
      (case render_files es (listed_dirs env es) (listed_files env es)
              (if is_root then [] else prefix @ (if is_last then ''    '' else BAR_INDENT))
              (if is_root then add_line (dir_name @ ''/'') st
               else add_line (prefix @ connector_of is_last @ dir_name @ ''/'') st) of
         (entry_idx, total_entries, st2) \<Rightarrow>
           fold (\<lambda>(i, d) s.
                   (case map_of es d of
                      Some (Dir l) \<Rightarrow>
                        add_stat ''total_dirs'' 1
                          (walk_dir env False d l
                             (if is_root then []
                              else prefix @ (if is_last then ''    '' else BAR_INDENT))
                             (i = length (listed_dirs env es) - 1 \<and> entry_idx = total_entries) s)
                    | _ \<Rightarrow> s))
                (enumerate 0 (listed_dirs env es)) st2)"
  using assms by (subst walk_dir.simps) (simp add: Let_def)

lemma walk_dir_summarized_unfold:
  assumes "dir_name \<in> summarize_dirs env"
  shows "walk_dir env is_root dir_name (Some es) prefix is_last st =
      summarize_branch es (listed_files env es)
        (if is_root then [] else prefix @ (if is_last then ''    '' else BAR_INDENT))
        (if is_root then add_line (dir_name @ ''/'') st
         else add_line (prefix @ connector_of is_last @ dir_name @ ''/'') st)"
  using assms by (subst walk_dir.simps) (simp add: Let_def)

lemma walk_dir_canon:
  "distinct_names (Dir listing) \<Longrightarrow>
     walk_dir env is_root dir_name (canon_listing listing) prefix is_last st =
     walk_dir env is_root dir_name listing prefix is_last st"
proof (induction env is_root dir_name listing prefix is_last st rule: walk_dir.induct)
  case (1 env is_root dir_name listing prefix is_last st)
  show ?case
  proof (cases listing)
    case None
    then show ?thesis by simp
  next
    case (Some es)
    define es' where "es' = sort_key fst (map (\<lambda>e. (fst e, canon (snd e))) es)"
    have d: "distinct (map fst es)" and ch: "\<forall>e \<in> set es. distinct_names (snd e)"
      using "1.prems" Some by simp_all
    have c: "canon_listing (Some es) = Some es'" by (simp add: es'_def)
    have ld: "listed_dirs env es' = listed_dirs env es"
      and lf: "listed_files env es' = listed_files env es"
      unfolding es'_def by (rule canon_listed [OF d])+
    have gs: "getsize es' = getsize es" unfolding es'_def by (rule canon_getsize [OF d])
    have mo: "map_of es' n = map_option canon (map_of es n)" for n
      unfolding es'_def by (rule canon_map_of [OF d])
    show ?thesis
    proof (cases "dir_name \<in> summarize_dirs env")
      case True
      show ?thesis
        unfolding c Some
        by (simp only: walk_dir_summarized_unfold [OF True] lf summarize_branch_getsize [OF gs])
    next
      case False
      obtain e t st2 where r:
        "render_files es (listed_dirs env es) (listed_files env es)
           (if is_root then [] else prefix @ (if is_last then ''    '' else BAR_INDENT))
           (if is_root then add_line (dir_name @ ''/'') st
            else add_line (prefix @ connector_of is_last @ dir_name @ ''/'') st) = (e, t, st2)"
        by (metis prod_cases3)
      have step:
        "(case map_of es' (snd x) of
            Some (Dir l) \<Rightarrow>
              add_stat ''total_dirs'' 1
                (walk_dir env False (snd x) l
                   (if is_root then [] else prefix @ (if is_last then ''    '' else BAR_INDENT))
                   (fst x = length (listed_dirs env es) - 1 \<and> e = t) s)
          | _ \<Rightarrow> s) =
         (case map_of es (snd x) of
            Some (Dir l) \<Rightarrow>
              add_stat ''total_dirs'' 1
                (walk_dir env False (snd x) l
                   (if is_root then [] else prefix @ (if is_last then ''    '' else BAR_INDENT))
                   (fst x = length (listed_dirs env es) - 1 \<and> e = t) s)
          | _ \<Rightarrow> s)"
        if x: "x \<in> set (enumerate 0 (listed_dirs env es))" for x s
      proof (cases "map_of es (snd x)")
        case None
        then show ?thesis by (simp add: mo)
      next
        case (Some nd)
        show ?thesis
        proof (cases nd)
          case (File sz)
          then show ?thesis using Some by (simp add: mo)
        next
          case (Dir l)
          have "(snd x, Dir l) \<in> set es" using Some Dir by (auto dest: map_of_SomeD)
          then have dl: "distinct_names (Dir l)" using ch by force
          have "walk_dir env False (snd x) (canon_listing l)
                  (if is_root then [] else prefix @ (if is_last then ''    '' else BAR_INDENT))
                  (fst x = length (listed_dirs env es) - 1 \<and> e = t) s =
                walk_dir env False (snd x) l
                  (if is_root then [] else prefix @ (if is_last then ''    '' else BAR_INDENT))
                  (fst x = length (listed_dirs env es) - 1 \<and> e = t) s"
            using "1.IH" [of "connector_of is_last"
                "if is_root then add_line (dir_name @ ''/'') st
                 else add_line (prefix @ connector_of is_last @ dir_name @ ''/'') st"
                "if is_root then [] else prefix @ (if is_last then ''    '' else BAR_INDENT)"
                es "listed_dirs env es" "listed_files env es" e "(t, st2)" t st2 x
                "fst x" "snd x" nd l s]
              \<open>listing = Some es\<close> False r x Some Dir dl
            by simp
          then show ?thesis using Some Dir by (simp add: mo canon_Dir)
        qed
      qed
      have "fold (\<lambda>(i, d) s.
                   (case map_of es' d of
                      Some (Dir l) \<Rightarrow>
                        add_stat ''total_dirs'' 1
                          (walk_dir env False d l
                             (if is_root then []
                              else prefix @ (if is_last then ''    '' else BAR_INDENT))
                             (i = length (listed_dirs env es) - 1 \<and> e = t) s)
                    | _ \<Rightarrow> s))
                (enumerate 0 (listed_dirs env es)) st2 =
            fold (\<lambda>(i, d) s.
                   (case map_of es d of
                      Some (Dir l) \<Rightarrow>
                        add_stat ''total_dirs'' 1
                          (walk_dir env False d l
                             (if is_root then []
                              else prefix @ (if is_last then ''    '' else BAR_INDENT))
                             (i = length (listed_dirs env es) - 1 \<and> e = t) s)
                    | _ \<Rightarrow> s))
                (enumerate 0 (listed_dirs env es)) st2"
        by (rule fold_cong) (use step in \<open>auto simp: case_prod_beta fun_eq_iff\<close>)
      then show ?thesis
        unfolding c Some
        by (simp only: walk_dir_unfold [OF False] ld lf render_files_getsize [OF gs] r prod.case)
    qed
  qed
qed

text \<open>
  C9. The tree text and the counters are a function of the snapshot and of the three
  sets alone: two listings of the same snapshot, whatever the order in which each
  directory hands out its entries, give the same result.
\<close>

theorem tree_independent_of_listing_order:
  assumes "distinct_names (Dir root)"
    and "distinct_names (Dir root')"
    and "canon (Dir root) = canon (Dir root')"
  shows "get_directory_structure env rootdir root = get_directory_structure env rootdir root'"
proof -
  have c: "canon_listing root = canon_listing root'"
    using assms(3) by (simp add: canon_Dir)
  have "walk_dir env True (basename rootdir) root [] True ([], \<lambda>_. 0) =
        walk_dir env True (basename rootdir) (canon_listing root) [] True ([], \<lambda>_. 0)"
    by (rule walk_dir_canon [OF assms(1), symmetric])
  also have "\<dots> = walk_dir env True (basename rootdir) root' [] True ([], \<lambda>_. 0)"
    unfolding c by (rule walk_dir_canon [OF assms(2)])
  finally show ?thesis by (simp add: get_directory_structure_def)
qed

theorem tree_independent_of_listing_order_witness:
  "distinct_names (Dir listing_one) \<and> distinct_names (Dir listing_two)
   \<and> canon (Dir listing_one) = canon (Dir listing_two)
   \<and> listing_one \<noteq> listing_two
   \<and> get_directory_structure env0 ''/home/proj'' listing_one =
       get_directory_structure env0 ''/home/proj'' listing_two"
proof -
  have d1: "distinct_names (Dir listing_one)" by (simp add: listing_one_def)
  have d2: "distinct_names (Dir listing_two)" by (simp add: listing_two_def)
  have c: "canon (Dir listing_one) = canon (Dir listing_two)"
    by (simp add: listing_one_def listing_two_def less_eq_char_def less_char_def)
  have n: "listing_one \<noteq> listing_two" by (simp add: listing_one_def listing_two_def)
  show ?thesis
    using tree_independent_of_listing_order [OF d1 d2 c, of env0 "''/home/proj''"] d1 d2 c n
    by simp
qed


end
